theory Spec2Isabelle
  imports Main
begin

section \<open>Recurring-task generation of TaskManagerPRO\<close>

text \<open>
  A shallow embedding of \<^verbatim>\<open>backend/src/services/recurringTaskService.ts\<close>, of the
  \<^verbatim>\<open>createNotification\<close> helper and the cron job of \<^verbatim>\<open>backend/src/index.ts\<close>, and of the
  part of the JavaScript \<^verbatim>\<open>Date\<close> object these functions call.

  Modelling decisions:
  \<^item> A \<^verbatim>\<open>Date\<close> is its time value in milliseconds since 1970-01-01T00:00: \<open>Some t\<close> for a
    valid date, with \<open>t\<close> at most 8640000000000000 (100 million days) from 0, and \<open>None\<close>
    for the \<^verbatim>\<open>Invalid Date\<close>, whose time value is \<^verbatim>\<open>NaN\<close>.  Every setter and constructor ends
    with \<open>TimeClip\<close>, which gives the \<^verbatim>\<open>Invalid Date\<close> beyond that range.  The local time zone
    is taken to be UTC (offset 0, no daylight saving), so the local-time getters and setters
    are the UTC ones.
  \<^item> The \<open>dueDate\<close> and \<open>recurringEndDate\<close> of a task are time values of valid dates:
    Mongoose casts and validates a document before every save and rejects an
    \<^verbatim>\<open>Invalid Date\<close>, so the collection holds none.
  \<^item> The day, year, month and date functions follow the definitions of ECMA-262
    (\<^verbatim>\<open>Day\<close>, \<^verbatim>\<open>DayFromYear\<close>, \<^verbatim>\<open>MonthFromTime\<close>, \<^verbatim>\<open>MakeDay\<close>, ...), with the year of a day
    computed from an estimate and one correction step.
  \<^item> An \<^verbatim>\<open>ObjectId\<close> is a \<open>nat\<close>; the Mongo collections are lists in insertion order.
  \<^item> Every storage call can throw: the field \<open>faults\<close> of the world lists, for the storage
    calls to come, whether each one throws; past its end no call throws.
  \<^item> The Mongoose timestamps \<^verbatim>\<open>createdAt\<close>/\<^verbatim>\<open>updatedAt\<close> are left out.
  \<^item> \<^verbatim>\<open>recurringInterval\<close> and \<^verbatim>\<open>recurringDate\<close> are integers or absent; fractions are
    not modelled.
\<close>

subsection \<open>The Date object\<close>

definition msPerDay :: int where
  "msPerDay = 86400000"

definition Day :: "int \<Rightarrow> int" where
  "Day t = t div msPerDay"

definition TimeWithinDay :: "int \<Rightarrow> int" where
  "TimeWithinDay t = t mod msPerDay"

definition DaysInYear :: "int \<Rightarrow> int" where
  "DaysInYear y =
     (if y mod 4 \<noteq> 0 then 365
      else if y mod 100 \<noteq> 0 then 366
      else if y mod 400 \<noteq> 0 then 365
      else 366)"

definition DayFromYear :: "int \<Rightarrow> int" where
  "DayFromYear y =
     365 * (y - 1970) + (y - 1969) div 4 - (y - 1901) div 100 + (y - 1601) div 400"

text \<open>The largest year that starts on or before day \<open>d\<close> (lemma \<open>YearFromDay_unique\<close>).\<close>

definition YearFromDay :: "int \<Rightarrow> int" where
  "YearFromDay d =
     (let y0 = 1970 + (400 * d) div 146097 in
      if d < DayFromYear y0 then y0 - 1
      else if DayFromYear (y0 + 1) \<le> d then y0 + 1
      else y0)"

definition YearFromTime :: "int \<Rightarrow> int" where
  "YearFromTime t = YearFromDay (Day t)"

definition InLeapYear :: "int \<Rightarrow> int" where
  "InLeapYear t = (if DaysInYear (YearFromTime t) = 366 then 1 else 0)"

definition DayWithinYear :: "int \<Rightarrow> int" where
  "DayWithinYear t = Day t - DayFromYear (YearFromTime t)"

text \<open>The month of the \<open>d\<close>-th day of a year, \<open>l\<close> being 1 in a leap year and 0 otherwise.\<close>

definition monthOfDay :: "int \<Rightarrow> int \<Rightarrow> int" where
  "monthOfDay l d =
     (if d < 31 then 0
      else if d < 59 + l then 1
      else if d < 90 + l then 2
      else if d < 120 + l then 3
      else if d < 151 + l then 4
      else if d < 181 + l then 5
      else if d < 212 + l then 6
      else if d < 243 + l then 7
      else if d < 273 + l then 8
      else if d < 304 + l then 9
      else if d < 334 + l then 10
      else 11)"

text \<open>The number of days of a year before its month \<open>m\<close> (0 is January).\<close>

definition monthStart :: "int \<Rightarrow> int \<Rightarrow> int" where
  "monthStart l m =
     (if m = 0 then 0
      else if m = 1 then 31
      else if m = 2 then 59 + l
      else if m = 3 then 90 + l
      else if m = 4 then 120 + l
      else if m = 5 then 151 + l
      else if m = 6 then 181 + l
      else if m = 7 then 212 + l
      else if m = 8 then 243 + l
      else if m = 9 then 273 + l
      else if m = 10 then 304 + l
      else 334 + l)"

definition MonthFromTime :: "int \<Rightarrow> int" where
  "MonthFromTime t = monthOfDay (InLeapYear t) (DayWithinYear t)"

definition DateFromTime :: "int \<Rightarrow> int" where
  "DateFromTime t = DayWithinYear t - monthStart (InLeapYear t) (MonthFromTime t) + 1"

definition WeekDay :: "int \<Rightarrow> int" where
  "WeekDay t = (Day t + 4) mod 7"

definition MakeDay :: "int \<Rightarrow> int \<Rightarrow> int \<Rightarrow> int" where
  "MakeDay year month date =
     (let ym = year + month div 12;
          mn = month mod 12
      in DayFromYear ym + monthStart (if DaysInYear ym = 366 then 1 else 0) mn + date - 1)"

definition MakeDate :: "int \<Rightarrow> int \<Rightarrow> int" where
  "MakeDate day time = day * msPerDay + time"

definition getFullYear :: "int \<Rightarrow> int" where
  "getFullYear t = YearFromTime t"

definition getMonth :: "int \<Rightarrow> int" where
  "getMonth t = MonthFromTime t"

definition getDate :: "int \<Rightarrow> int" where
  "getDate t = DateFromTime t"

definition getDay :: "int \<Rightarrow> int" where
  "getDay t = WeekDay t"

text \<open>
  \<open>TimeClip\<close>: a time value more than 8.64e15 ms from 0 becomes \<^verbatim>\<open>NaN\<close>, the time value of
  the \<^verbatim>\<open>Invalid Date\<close>.
\<close>

definition TimeClip :: "int \<Rightarrow> int option" where
  "TimeClip t = (if abs t \<le> 8640000000000000 then Some t else None)"

text \<open>
  The setters, on a valid date \<open>t\<close>; each returns the new time value of the date.  On an
  \<^verbatim>\<open>Invalid Date\<close>, or with the argument \<^verbatim>\<open>NaN\<close>, \<^verbatim>\<open>setDate\<close> and \<^verbatim>\<open>setHours\<close> give
  \<^verbatim>\<open>NaN\<close>: the callers below do this with \<open>Option.bind\<close>.
\<close>

definition setDate :: "int \<Rightarrow> int \<Rightarrow> int option" where
  "setDate t dt =
     TimeClip (MakeDate (MakeDay (YearFromTime t) (MonthFromTime t) dt) (TimeWithinDay t))"

definition setMonth :: "int \<Rightarrow> int \<Rightarrow> int option" where
  "setMonth t m =
     TimeClip (MakeDate (MakeDay (YearFromTime t) m (DateFromTime t)) (TimeWithinDay t))"

definition setFullYear :: "int \<Rightarrow> int \<Rightarrow> int \<Rightarrow> int \<Rightarrow> int option" where
  "setFullYear t y m dt = TimeClip (MakeDate (MakeDay y m dt) (TimeWithinDay t))"

text \<open>\<^verbatim>\<open>setHours(0, 0, 0, 0)\<close>: the start of the day of \<open>t\<close>.\<close>

definition setHours0 :: "int \<Rightarrow> int option" where
  "setHours0 t = TimeClip (MakeDate (Day t) 0)"

text \<open>
  \<^verbatim>\<open>new Date(year, month, date)\<close>: the constructor reads a year from 0 to 99 as a year of
  the twentieth century; the setters do not.
\<close>

definition Date_ymd :: "int \<Rightarrow> int \<Rightarrow> int \<Rightarrow> int option" where
  "Date_ymd y m dt =
     (let yr = (if 0 \<le> y \<and> y \<le> 99 then 1900 + y else y)
      in TimeClip (MakeDate (MakeDay yr m dt) 0))"

subsection \<open>Tasks, notifications and the world\<close>

datatype priority = Low | Medium | High

datatype status = Todo | InProgress | Completed

text \<open>The interface \<^verbatim>\<open>ITask\<close> of \<^verbatim>\<open>models/Task.ts\<close>; \<open>task_id\<close> is the document's \<^verbatim>\<open>_id\<close>.\<close>

record task =
  task_id :: nat
  title :: string
  description :: string
  dueDate :: int
  priority :: priority
  status :: status
  assignedTo :: nat
  createdBy :: nat
  isRecurring :: bool
  recurringType :: "string option"
  recurringInterval :: "int option"
  recurringDays :: "int list option"
  recurringDate :: "int option"
  recurringEndDate :: "int option"
  parentTaskId :: "nat option"

record notification =
  n_id :: nat
  n_user :: nat
  n_message :: string
  n_type :: string
  n_entityId :: "nat option"

datatype console_entry = ConsoleError string | ConsoleInfo string | ConsoleLog string nat

text \<open>
  The exceptions: of a storage call, of Mongoose's validation of a document before its
  save, and of Mongoose's cast of the values of a query.
\<close>

datatype exn = StorageError | ValidationError | CastError

record world =
  tasks :: "task list"
  notifications :: "notification list"
  emitted :: "(nat \<times> notification) list"
  console :: "console_entry list"
  faults :: "bool list"
  nextId :: nat

text \<open>One storage call: whether it throws, and the world with that outcome consumed.\<close>

definition io_step :: "world \<Rightarrow> bool \<times> world" where
  "io_step w = (case faults w of [] \<Rightarrow> (False, w) | f # fs \<Rightarrow> (f, w\<lparr>faults := fs\<rparr>))"

text \<open>\<^verbatim>\<open>new Task(...)\<close> and \<^verbatim>\<open>new Notification(...)\<close> draw a fresh \<^verbatim>\<open>ObjectId\<close>.\<close>

definition newObjectId :: "world \<Rightarrow> nat \<times> world" where
  "newObjectId w = (nextId w, w\<lparr>nextId := Suc (nextId w)\<rparr>)"

definition Task_save :: "world \<Rightarrow> task \<Rightarrow> (exn + unit) \<times> world" where
  "Task_save w t =
     (let (f, w1) = io_step w
      in if f then (Inl StorageError, w1)
         else (Inr (), w1\<lparr>tasks := tasks w1 @ [t]\<rparr>))"

definition Task_find :: "world \<Rightarrow> (task \<Rightarrow> bool) \<Rightarrow> (exn + task list) \<times> world" where
  "Task_find w q =
     (let (f, w1) = io_step w
      in if f then (Inl StorageError, w1)
         else (Inr (filter q (tasks w1)), w1))"

definition Task_countDocuments :: "world \<Rightarrow> (task \<Rightarrow> bool) \<Rightarrow> (exn + nat) \<times> world" where
  "Task_countDocuments w q =
     (let (f, w1) = io_step w
      in if f then (Inl StorageError, w1)
         else (Inr (length (filter q (tasks w1))), w1))"

definition Notification_save :: "world \<Rightarrow> notification \<Rightarrow> (exn + unit) \<times> world" where
  "Notification_save w n =
     (let (f, w1) = io_step w
      in if f then (Inl StorageError, w1)
         else (Inr (), w1\<lparr>notifications := notifications w1 @ [n]\<rparr>))"

definition console_error :: "string \<Rightarrow> world \<Rightarrow> world" where
  "console_error msg w = w\<lparr>console := console w @ [ConsoleError msg]\<rparr>"

definition console_log :: "string \<Rightarrow> nat \<Rightarrow> world \<Rightarrow> world" where
  "console_log msg n w = w\<lparr>console := console w @ [ConsoleLog msg n]\<rparr>"

subsection \<open>index.ts: createNotification\<close>

definition createNotification ::
  "world \<Rightarrow> nat \<Rightarrow> string \<Rightarrow> string \<Rightarrow> nat option \<Rightarrow> notification option \<times> world" where
  "createNotification w userId message type entityId =
     (let (i, w1) = newObjectId w;
          notification = \<lparr>n_id = i, n_user = userId, n_message = message, n_type = type,
                           n_entityId = entityId\<rparr>;
          (r, w2) = Notification_save w1 notification
      in case r of
           Inl e \<Rightarrow> (None, console_error ''Error creating notification:'' w2)
         | Inr u \<Rightarrow> (Some notification, w2\<lparr>emitted := emitted w2 @ [(userId, notification)]\<rparr>))"

subsection \<open>recurringTaskService.ts\<close>

text \<open>\<^verbatim>\<open>task.recurringInterval || 1\<close>: an absent or zero interval reads as 1.\<close>

definition intervalOr1 :: "int option \<Rightarrow> int" where
  "intervalOr1 i = (case i of None \<Rightarrow> 1 | Some n \<Rightarrow> if n = 0 then 1 else n)"

text \<open>The days of \<^verbatim>\<open>task.recurringDays\<close>, none when the field is absent.\<close>

definition daysOf :: "task \<Rightarrow> int list" where
  "daysOf task = (case recurringDays task of None \<Rightarrow> [] | Some ds \<Rightarrow> ds)"

text \<open>\<^verbatim>\<open>if (task.recurringDate)\<close>: present and not zero.\<close>

definition hasRecurringDate :: "task \<Rightarrow> bool" where
  "hasRecurringDate task = (case recurringDate task of None \<Rightarrow> False | Some d \<Rightarrow> d \<noteq> 0)"

text \<open>
  In the \<^verbatim>\<open>monthly\<close> branch the date may be invalid after \<^verbatim>\<open>setFullYear\<close>, and
  \<^verbatim>\<open>daysInMonth\<close> is \<^verbatim>\<open>NaN\<close> when its date is invalid; \<^verbatim>\<open>Math.min\<close> of a number and \<^verbatim>\<open>NaN\<close>
  is \<^verbatim>\<open>NaN\<close>.
\<close>

definition calculateNextDueDate :: "task \<Rightarrow> int option" where
  "calculateNextDueDate task =
     (let currentDueDate = dueDate task;
          newDueDate = currentDueDate
      in if recurringType task = Some ''daily'' then
           setDate newDueDate (getDate currentDueDate + intervalOr1 (recurringInterval task))
         else if recurringType task = Some ''weekly'' then
           (if 0 < length (daysOf task) then
              (let currentDayOfWeek = getDay currentDueDate;
                   nextDays = filter (\<lambda>day. currentDayOfWeek < day) (daysOf task)
               in if 0 < length nextDays then
                    (let daysToAdd = hd nextDays - currentDayOfWeek
                     in setDate newDueDate (getDate currentDueDate + daysToAdd))
                  else
                    (let daysToAdd = 7 - currentDayOfWeek + hd (daysOf task)
                     in setDate newDueDate (getDate currentDueDate + daysToAdd)))
            else
              setDate newDueDate
                (getDate currentDueDate + intervalOr1 (recurringInterval task) * 7))
         else if recurringType task = Some ''monthly'' then
           (if hasRecurringDate task then
              (let targetMonth = getMonth currentDueDate + 1;
                   targetYear = getFullYear currentDueDate + (if 11 < targetMonth then 1 else 0);
                   normalizedMonth = targetMonth mod 12;
                   newDueDate1 = setFullYear newDueDate targetYear normalizedMonth 1;
                   daysInMonth = map_option getDate (Date_ymd targetYear (normalizedMonth + 1) 0);
                   day = map_option (min (case recurringDate task of None \<Rightarrow> 0 | Some d \<Rightarrow> d))
                           daysInMonth
               in Option.bind newDueDate1 (\<lambda>t. Option.bind day (setDate t)))
            else
              setMonth newDueDate
                (getMonth currentDueDate + intervalOr1 (recurringInterval task)))
         else if recurringType task = Some ''custom'' then
           setDate newDueDate (getDate currentDueDate + intervalOr1 (recurringInterval task))
         else Some newDueDate)"

text \<open>
  \<^verbatim>\<open>parentTask.recurringEndDate && newDueDate > parentTask.recurringEndDate\<close>: a
  \<^verbatim>\<open>Date\<close> object is always truthy, and a comparison with \<^verbatim>\<open>NaN\<close> is false.
\<close>

definition pastEndDate :: "task \<Rightarrow> int option \<Rightarrow> bool" where
  "pastEndDate parentTask newDueDate =
     (case recurringEndDate parentTask of
        None \<Rightarrow> False
      | Some e \<Rightarrow> (case newDueDate of None \<Rightarrow> False | Some n \<Rightarrow> e < n))"

text \<open>
  The document \<^verbatim>\<open>new Task({...})\<close> of \<^verbatim>\<open>createRecurringTaskInstance\<close>, for a valid due date:
  the fields not given are absent, and Mongoose starts an array field as the empty array.
\<close>

definition newTaskInstance :: "nat \<Rightarrow> task \<Rightarrow> int \<Rightarrow> task" where
  "newTaskInstance i parentTask newDueDate =
     \<lparr>task_id = i,
      title = title parentTask,
      description = description parentTask,
      dueDate = newDueDate,
      priority = priority parentTask,
      status = Todo,
      assignedTo = assignedTo parentTask,
      createdBy = createdBy parentTask,
      isRecurring = False,
      recurringType = None,
      recurringInterval = None,
      recurringDays = Some [],
      recurringDate = None,
      recurringEndDate = None,
      parentTaskId = Some (task_id parentTask)\<rparr>"

text \<open>
  When the new due date is an \<^verbatim>\<open>Invalid Date\<close>, \<^verbatim>\<open>save()\<close> throws a \<^verbatim>\<open>ValidationError\<close>
  before any storage call (the cast of \<^verbatim>\<open>dueDate\<close> has failed); the \<^verbatim>\<open>catch\<close> logs it like
  every other exception.
\<close>

definition createRecurringTaskInstance :: "world \<Rightarrow> task \<Rightarrow> task option \<times> world" where
  "createRecurringTaskInstance w parentTask =
     (let newDueDate = calculateNextDueDate parentTask
      in if pastEndDate parentTask newDueDate then (None, w)
         else
           (let (i, w1) = newObjectId w
            in case newDueDate of
                 None \<Rightarrow> (None, console_error ''Error creating recurring task instance:'' w1)
               | Some d \<Rightarrow>
                   (let inst = newTaskInstance i parentTask d;
                        (r, w2) = Task_save w1 inst
                    in case r of
                         Inl e \<Rightarrow>
                           (None, console_error ''Error creating recurring task instance:'' w2)
                       | Inr u \<Rightarrow>
                           (if assignedTo inst \<noteq> createdBy inst then
                              (Some inst,
                               snd (createNotification w2 (assignedTo inst)
                                      (''New recurring task: '' @ title inst) ''task_assigned''
                                      (Some (task_id inst))))
                            else (Some inst, w2)))))"

text \<open>The \<^verbatim>\<open>for\<close> loop of \<^verbatim>\<open>processCompletedRecurringTasks\<close>.\<close>

fun completedLoop :: "world \<Rightarrow> task list \<Rightarrow> world" where
  "completedLoop w [] = w"
| "completedLoop w (task # rest) = completedLoop (snd (createRecurringTaskInstance w task)) rest"

definition processCompletedRecurringTasks :: "world \<Rightarrow> world" where
  "processCompletedRecurringTasks w =
     (let (r, w1) = Task_find w (\<lambda>t. isRecurring t \<and> status t = Completed)
      in case r of
           Inl e \<Rightarrow> console_error ''Error processing recurring tasks:'' w1
         | Inr completedRecurringTasks \<Rightarrow>
             console_log ''Processed completed recurring tasks'' (length completedRecurringTasks)
               (completedLoop w1 completedRecurringTasks))"

text \<open>
  The query of the existence check: the instances of \<open>task\<close> due from \<open>startOfDay\<close> on and
  before \<open>endOfDay\<close>.
\<close>

definition instanceOnDay :: "task \<Rightarrow> int \<Rightarrow> int \<Rightarrow> task \<Rightarrow> bool" where
  "instanceOnDay task startOfDay endOfDay t =
     (parentTaskId t = Some (task_id task) \<and> startOfDay \<le> dueDate t \<and> dueDate t < endOfDay)"

text \<open>
  \<^verbatim>\<open>Task.countDocuments\<close> with that query: Mongoose casts the bounds before the storage call
  and throws a \<^verbatim>\<open>CastError\<close> for an \<^verbatim>\<open>Invalid Date\<close>.
\<close>

definition countInstances ::
  "world \<Rightarrow> task \<Rightarrow> int option \<Rightarrow> int option \<Rightarrow> (exn + nat) \<times> world" where
  "countInstances w task startOfDay endOfDay =
     (case startOfDay of
        None \<Rightarrow> (Inl CastError, w)
      | Some s \<Rightarrow>
          (case endOfDay of
             None \<Rightarrow> (Inl CastError, w)
           | Some e \<Rightarrow> Task_countDocuments w (instanceOnDay task s e)))"

text \<open>
  The existence check of one root: the day of the next due date, from
  \<^verbatim>\<open>setHours(0, 0, 0, 0)\<close> to one day later, and the count.
\<close>

definition existenceCheck :: "world \<Rightarrow> task \<Rightarrow> (exn + nat) \<times> world" where
  "existenceCheck w task =
     (let nextDueDate = calculateNextDueDate task;
          nextDueDateDay = Option.bind nextDueDate setHours0;
          startOfDay = nextDueDateDay;
          endOfDay = Option.bind nextDueDateDay (\<lambda>t. setDate t (getDate t + 1))
      in countInstances w task startOfDay endOfDay)"

text \<open>
  The \<^verbatim>\<open>for\<close> loop of \<^verbatim>\<open>generateUpcomingRecurringTasks\<close>, with \<^verbatim>\<open>createdCount\<close> as \<open>c\<close>; an
  exception of the existence check leaves the loop.
\<close>

fun upcomingLoop :: "world \<Rightarrow> nat \<Rightarrow> task list \<Rightarrow> (exn + nat) \<times> world" where
  "upcomingLoop w c [] = (Inr c, w)"
| "upcomingLoop w c (task # rest) =
     (let (r, w1) = existenceCheck w task
      in case r of
           Inl e \<Rightarrow> (Inl e, w1)
         | Inr existingInstances \<Rightarrow>
             (if existingInstances = 0 then
                (let (newInstance, w2) = createRecurringTaskInstance w1 task
                 in upcomingLoop w2 (if newInstance \<noteq> None then Suc c else c) rest)
              else upcomingLoop w1 c rest))"

definition generateUpcomingRecurringTasks :: "world \<Rightarrow> world" where
  "generateUpcomingRecurringTasks w =
     (let (r, w1) = Task_find w (\<lambda>t. isRecurring t \<and> parentTaskId t = None)
      in case r of
           Inl e \<Rightarrow> console_error ''Error generating upcoming recurring tasks:'' w1
         | Inr recurringTasks \<Rightarrow>
             (case upcomingLoop w1 0 recurringTasks of
                (Inl e, w2) \<Rightarrow> console_error ''Error generating upcoming recurring tasks:'' w2
              | (Inr createdCount, w2) \<Rightarrow>
                  console_log ''Created new recurring task instances'' createdCount w2))"

subsection \<open>index.ts: the cron job\<close>

text \<open>
  Neither pass throws (each catches its own exceptions), so the \<^verbatim>\<open>catch\<close> of the job is
  never entered.
\<close>

definition cronJob :: "world \<Rightarrow> world" where
  "cronJob w =
     (let w1 = w\<lparr>console := console w
                  @ [ConsoleInfo ''Running scheduled task: Processing recurring tasks'']\<rparr>;
          w2 = processCompletedRecurringTasks w1
      in generateUpcomingRecurringTasks w2)"

subsection \<open>The update of a task's status\<close>

text \<open>
  The effect on the collection of \<^verbatim>\<open>Task.findByIdAndUpdate(id, { $set: { status: 'completed' } })\<close>
  in the update route (\<^verbatim>\<open>routes/tasks.ts\<close>).  For a task that is not recurring the route
  calls no generation function after it.
\<close>

definition markCompleted :: "nat \<Rightarrow> world \<Rightarrow> world" where
  "markCompleted i w =
     w\<lparr>tasks := map (\<lambda>t. if task_id t = i then t\<lparr>status := Completed\<rparr> else t) (tasks w)\<rparr>"

subsection \<open>Predicates for stating the properties\<close>

text \<open>
  \<open>generatedFrom p t\<close>: the task \<open>t\<close> is the instance that \<open>createRecurringTaskInstance\<close>
  builds for the parent \<open>p\<close>: its due date is the next due date of \<open>p\<close>, a valid date not past
  the end date of \<open>p\<close>.
\<close>

definition generatedFrom :: "task \<Rightarrow> task \<Rightarrow> bool" where
  "generatedFrom p t =
     (calculateNextDueDate p = Some (dueDate t)
      \<and> t = newTaskInstance (task_id t) p (dueDate t)
      \<and> \<not> pastEndDate p (Some (dueDate t)))"

text \<open>
  \<open>hasNextInstance p\<close>: \<open>createRecurringTaskInstance\<close> builds an instance for \<open>p\<close> and
  tries to save it, because the next due date of \<open>p\<close> is a valid date and not past the end
  date.
\<close>

definition hasNextInstance :: "task \<Rightarrow> bool" where
  "hasNextInstance p =
     (case calculateNextDueDate p of
        None \<Rightarrow> False
      | Some n \<Rightarrow> \<not> pastEndDate p (Some n))"

text \<open>
  The number of days of month \<open>m\<close> (0 is January) of year \<open>y\<close>, in the calendar of
  \<open>DaysInYear\<close>.
\<close>

definition leapFlag :: "int \<Rightarrow> int" where
  "leapFlag y = (if DaysInYear y = 366 then 1 else 0)"

definition daysInMonthOf :: "int \<Rightarrow> int \<Rightarrow> int" where
  "daysInMonthOf y m =
     (if m = 1 then 28 + leapFlag y
      else if m = 3 \<or> m = 5 \<or> m = 8 \<or> m = 10 then 30
      else 31)"

subsection \<open>Example data\<close>

text \<open>
  A weekly root task on Mondays and Thursdays, due on Monday 2024-01-01 at 00:00
  (time value 1704067200000), assigned by user 1 to user 2.
\<close>

definition exampleRoot :: task where
  "exampleRoot =
     \<lparr>task_id = 0, title = ''Report'', description = ''Weekly report'',
      dueDate = 1704067200000, priority = Medium, status = Todo,
      assignedTo = 2, createdBy = 1, isRecurring = True,
      recurringType = Some ''weekly'', recurringInterval = None,
      recurringDays = Some [1, 4], recurringDate = None,
      recurringEndDate = None, parentTaskId = None\<rparr>"

definition exampleWorld :: world where
  "exampleWorld =
     \<lparr>tasks = [exampleRoot], notifications = [], emitted = [], console = [],
      faults = [], nextId = 1\<rparr>"

text \<open>The same task with its days in the order Friday, Monday, Wednesday.\<close>

definition unsortedDaysTask :: task where
  "unsortedDaysTask = exampleRoot\<lparr>recurringDays := Some [5, 1, 3]\<rparr>"


text \<open>
  A daily task with the interval 100000000, which the validators accept: its next due date
  lies beyond the range of \<^verbatim>\<open>Date\<close>.
\<close>

definition hugeIntervalTask :: task where
  "hugeIntervalTask =
     exampleRoot\<lparr>recurringType := Some ''daily'', recurringInterval := Some 100000000,
                  recurringDays := Some []\<rparr>"

text \<open>A task whose recurrence type is none of the four known ones.\<close>

definition yearlyTask :: task where
  "yearlyTask = exampleRoot\<lparr>recurringType := Some ''yearly'', recurringDays := Some []\<rparr>"

text \<open>
  The example root with an end date on Wednesday 2024-01-03, before its next due date, and
  with an end date on Thursday 2024-01-04, its next due date.
\<close>

definition endedTask :: task where
  "endedTask = exampleRoot\<lparr>recurringEndDate := Some 1704240000000\<rparr>"

definition boundedTask :: task where
  "boundedTask = exampleRoot\<lparr>recurringEndDate := Some 1704326400000\<rparr>"

definition boundedWorld :: world where
  "boundedWorld = exampleWorld\<lparr>tasks := [boundedTask]\<rparr>"

text \<open>
  Two roots, with the second storage call to come throwing; and the same two tasks
  completed.
\<close>

definition secondRoot :: task where
  "secondRoot = exampleRoot\<lparr>task_id := 1, title := ''Backup''\<rparr>"

definition twoRootsWorld :: world where
  "twoRootsWorld =
     \<lparr>tasks = [exampleRoot, secondRoot], notifications = [], emitted = [], console = [],
      faults = [False, True], nextId = 2\<rparr>"

definition twoCompletedWorld :: world where
  "twoCompletedWorld =
     twoRootsWorld\<lparr>tasks := [exampleRoot\<lparr>status := Completed\<rparr>,
                              secondRoot\<lparr>status := Completed\<rparr>]\<rparr>"

text \<open>The example root, completed.\<close>

definition completedRootWorld :: world where
  "completedRootWorld = exampleWorld\<lparr>tasks := [exampleRoot\<lparr>status := Completed\<rparr>]\<rparr>"

text \<open>
  A monthly task for the 31st, due on 15 January of the year 0 (time value
  \<open>-62166009600000\<close>), a leap year of the calendar.
\<close>

definition yearZeroTask :: task where
  "yearZeroTask =
     exampleRoot\<lparr>dueDate := - 62166009600000, recurringType := Some ''monthly'',
                  recurringDays := Some [], recurringDate := Some 31\<rparr>"

section \<open>Calendar arithmetic\<close>

lemma div_succ:
  fixes a k :: int
  assumes "0 < k"
  shows "(a + 1) div k = a div k + (if (a + 1) mod k = 0 then 1 else 0)"
proof -
  define q where "q = a div k"
  define r where "r = a mod k"
  have a: "a = k * q + r" and r: "0 \<le> r" "r < k"
    using assms by (simp_all add: q_def r_def)
  show ?thesis
  proof (cases "r + 1 = k")
    case True
    then have "a + 1 = k * (q + 1) + 0" using a by (simp add: algebra_simps)
    then have "(a + 1) div k = q + 1" "(a + 1) mod k = 0"
      using assms by (auto intro: int_div_pos_eq int_mod_pos_eq)
    then show ?thesis using q_def by simp
  next
    case False
    then have lt: "r + 1 < k" using r by simp
    have "a + 1 = k * q + (r + 1)" using a by simp
    then have "(a + 1) div k = q" "(a + 1) mod k = r + 1"
      using lt r by (auto intro: int_div_pos_eq int_mod_pos_eq)
    then show ?thesis using r q_def by simp
  qed
qed

lemma DayFromYear_Suc: "DayFromYear (y + 1) = DayFromYear y + DaysInYear y"
proof -
  have m4: "(y - 1968) mod 4 = 0 \<longleftrightarrow> y mod 4 = 0"
    using mod_mult_self2 [of y 4 "- 492"] by simp
  have m100: "(y - 1900) mod 100 = 0 \<longleftrightarrow> y mod 100 = 0"
    using mod_mult_self2 [of y 100 "- 19"] by simp
  have m400: "(y - 1600) mod 400 = 0 \<longleftrightarrow> y mod 400 = 0"
    using mod_mult_self2 [of y 400 "- 4"] by simp
  have i1: "y mod 4 = 0" if "y mod 100 = 0"
  proof -
    have "100 dvd y" using that by (simp add: mod_eq_0_iff_dvd)
    moreover have "(4::int) dvd 100" by simp
    ultimately have "4 dvd y" by (rule dvd_trans [rotated])
    then show ?thesis by (simp add: mod_eq_0_iff_dvd)
  qed
  have i2: "y mod 100 = 0" if "y mod 400 = 0"
  proof -
    have "400 dvd y" using that by (simp add: mod_eq_0_iff_dvd)
    moreover have "(100::int) dvd 400" by simp
    ultimately have "100 dvd y" by (rule dvd_trans [rotated])
    then show ?thesis by (simp add: mod_eq_0_iff_dvd)
  qed
  have a: "(y + 1 - 1969) div 4 = (y - 1969) div 4 + (if y mod 4 = 0 then 1 else 0)"
    using div_succ [of 4 "y - 1969"] m4 by (simp add: algebra_simps)
  have b: "(y + 1 - 1901) div 100 = (y - 1901) div 100 + (if y mod 100 = 0 then 1 else 0)"
    using div_succ [of 100 "y - 1901"] m100 by (simp add: algebra_simps)
  have c: "(y + 1 - 1601) div 400 = (y - 1601) div 400 + (if y mod 400 = 0 then 1 else 0)"
    using div_succ [of 400 "y - 1601"] m400 by (simp add: algebra_simps)
  show ?thesis
    unfolding DayFromYear_def DaysInYear_def a b c using i1 i2 by auto
qed

lemma DaysInYear_cases: "DaysInYear y = 365 \<or> DaysInYear y = 366"
  by (simp add: DaysInYear_def)

lemma DayFromYear_less_step: "DayFromYear y < DayFromYear (y + 1)"
  using DayFromYear_Suc [of y] DaysInYear_cases [of y] by linarith

lemma DayFromYear_mono_nat: "DayFromYear y \<le> DayFromYear (y + int n)"
proof (induction n)
  case 0
  show ?case by simp
next
  case (Suc n)
  have e: "y + int (Suc n) = y + int n + 1" by simp
  have "DayFromYear (y + int n) < DayFromYear (y + int n + 1)"
    by (rule DayFromYear_less_step)
  with Suc show ?case unfolding e by linarith
qed

lemma DayFromYear_mono:
  assumes "y \<le> z"
  shows "DayFromYear y \<le> DayFromYear z"
proof -
  have "z = y + int (nat (z - y))" using assms by simp
  then show ?thesis using DayFromYear_mono_nat [of y "nat (z - y)"] by simp
qed

lemma div_bounds:
  fixes x m :: int
  assumes "0 < m"
  shows "m * (x div m) \<le> x" and "x < m * (x div m) + m"
proof -
  have "x = m * (x div m) + x mod m" by simp
  moreover have "0 \<le> x mod m" "x mod m < m" using assms by simp_all
  ultimately show "m * (x div m) \<le> x" and "x < m * (x div m) + m" by linarith+
qed

lemma DayFromYear_bounds:
  "146097 * (y - 1970) - 506 \<le> 400 * DayFromYear y"
  "400 * DayFromYear y \<le> 146097 * (y - 1970) + 589"
proof -
  define n where "n = y - 1970"
  define a where "a = (y - 1969) div 4"
  define b where "b = (y - 1901) div 100"
  define c where "c = (y - 1601) div 400"
  have a: "4 * a \<le> n + 1" "n + 1 < 4 * a + 4"
    using div_bounds [of 4 "y - 1969"] by (simp_all add: a_def n_def)
  have b: "100 * b \<le> n + 69" "n + 69 < 100 * b + 100"
    using div_bounds [of 100 "y - 1901"] by (simp_all add: b_def n_def)
  have c: "400 * c \<le> n + 369" "n + 369 < 400 * c + 400"
    using div_bounds [of 400 "y - 1601"] by (simp_all add: c_def n_def)
  have a': "400 * a \<le> 100 * n + 100" "100 * n - 200 \<le> 400 * a"
    using a by linarith+
  have b': "4 * n - 120 \<le> 400 * b" "400 * b \<le> 4 * n + 276"
    using b by linarith+
  have d: "400 * DayFromYear y = 146000 * n + 400 * a - 400 * b + 400 * c"
    by (simp add: DayFromYear_def a_def b_def c_def n_def)
  show "146097 * (y - 1970) - 506 \<le> 400 * DayFromYear y"
    unfolding d n_def [symmetric] using a' b' c by linarith
  show "400 * DayFromYear y \<le> 146097 * (y - 1970) + 589"
    unfolding d n_def [symmetric] using a' b' c by linarith
qed

lemma YearFromDay_range:
  "DayFromYear (YearFromDay d) \<le> d \<and> d < DayFromYear (YearFromDay d + 1)"
proof -
  define k where "k = (400 * d) div 146097"
  have k: "146097 * k \<le> 400 * d" "400 * d < 146097 * k + 146097"
    using div_bounds [of 146097 "400 * d"] by (simp_all add: k_def)
  have "400 * DayFromYear (1970 + k - 1) \<le> 146097 * k - 145508"
    using DayFromYear_bounds(2) [of "1970 + k - 1"] by (simp add: algebra_simps)
  then have lo: "DayFromYear (1970 + k - 1) \<le> d"
    using k by linarith
  have "146097 * k + 291688 \<le> 400 * DayFromYear (1970 + k + 1 + 1)"
    using DayFromYear_bounds(1) [of "1970 + k + 1 + 1"] by (simp add: algebra_simps)
  then have hi: "d < DayFromYear (1970 + k + 1 + 1)"
    using k by linarith
  show ?thesis
    using lo hi by (simp add: YearFromDay_def Let_def k_def [symmetric])
qed

lemma YearFromDay_unique:
  assumes "DayFromYear y \<le> d" and "d < DayFromYear (y + 1)"
  shows "YearFromDay d = y"
proof (rule ccontr)
  assume ne: "YearFromDay d \<noteq> y"
  let ?z = "YearFromDay d"
  have r: "DayFromYear ?z \<le> d" "d < DayFromYear (?z + 1)"
    using YearFromDay_range [of d] by simp_all
  show False
  proof (cases "?z < y")
    case True
    then have "DayFromYear (?z + 1) \<le> DayFromYear y"
      by (intro DayFromYear_mono) simp
    with r assms show False by linarith
  next
    case False
    with ne have "DayFromYear (y + 1) \<le> DayFromYear ?z"
      by (intro DayFromYear_mono) simp
    with r assms show False by linarith
  qed
qed

section \<open>Days and weekdays\<close>

lemma monthOfDay_range: "0 \<le> monthOfDay l d \<and> monthOfDay l d \<le> 11"
  by (simp add: monthOfDay_def)

lemma MakeDay_in_year:
  assumes "0 \<le> m" "m \<le> 11"
  shows "MakeDay y m dt =
    DayFromYear y + monthStart (if DaysInYear y = 366 then 1 else 0) m + dt - 1"
proof -
  have "m div 12 = 0" "m mod 12 = m" using assms by simp_all
  then show ?thesis by (simp add: MakeDay_def)
qed

lemma MakeDate_Day: "MakeDate (Day t + n) (TimeWithinDay t) = t + n * msPerDay"
  by (simp add: MakeDate_def Day_def TimeWithinDay_def algebra_simps)

lemma MakeDay_current: "MakeDay (YearFromTime t) (MonthFromTime t) (DateFromTime t + n) = Day t + n"
proof -
  have r: "0 \<le> MonthFromTime t" "MonthFromTime t \<le> 11"
    using monthOfDay_range by (simp_all add: MonthFromTime_def)
  show ?thesis
    unfolding MakeDay_in_year [OF r]
    by (simp add: DateFromTime_def DayWithinYear_def InLeapYear_def)
qed

lemma TimeClip_Some: "TimeClip x = Some y \<Longrightarrow> y = x"
  by (simp add: TimeClip_def split: if_splits)

lemma setDate_getDate: "setDate t (getDate t + n) = TimeClip (t + n * msPerDay)"
  by (simp add: setDate_def getDate_def MakeDay_current MakeDate_Day)

lemma Day_add: "Day (t + n * msPerDay) = Day t + n"
  by (simp add: Day_def msPerDay_def)

lemma TimeWithinDay_add: "TimeWithinDay (t + n * msPerDay) = TimeWithinDay t"
  by (simp add: TimeWithinDay_def msPerDay_def)

lemma getDay_add: "getDay (t + n * msPerDay) = (getDay t + n) mod 7"
proof -
  have "Day (t + n * msPerDay) + 4 = (Day t + 4) + n" by (simp add: Day_add)
  then show ?thesis unfolding getDay_def WeekDay_def by (simp only: mod_add_left_eq)
qed

lemma getDay_range: "0 \<le> getDay t \<and> getDay t \<le> 6"
  by (simp add: getDay_def WeekDay_def)




lemma calculateNextDueDate_weekly_days:
  assumes "recurringType task = Some ''weekly''" and "daysOf task \<noteq> []"
  shows "calculateNextDueDate task =
    (let wd = getDay (dueDate task);
         nextDays = filter (\<lambda>day. wd < day) (daysOf task)
     in if nextDays \<noteq> [] then TimeClip (dueDate task + (hd nextDays - wd) * msPerDay)
        else TimeClip (dueDate task + (7 - wd + hd (daysOf task)) * msPerDay))"
  using assms by (simp add: calculateNextDueDate_def setDate_getDate Let_def)


lemma calculateNextDueDate_other:
  "recurringType task \<notin> {Some ''daily'', Some ''weekly'', Some ''monthly'', Some ''custom''}
   \<Longrightarrow> calculateNextDueDate task = Some (dueDate task)"
  by (simp add: calculateNextDueDate_def)

lemma hd_filter_sorted_Min:
  fixes ds :: "int list"
  assumes "sorted ds" and "filter P ds \<noteq> []"
  shows "hd (filter P ds) = Min {d \<in> set ds. P d}"
proof -
  have s: "sorted (filter P ds)" using assms(1) by (rule sorted_wrt_filter)
  obtain x xs where x: "filter P ds = x # xs" using assms(2) by (cases "filter P ds") auto
  have "\<forall>y \<in> set (x # xs). x \<le> y" using s x by auto
  then have "Min (set (x # xs)) = x" by (intro Min_eqI) auto
  moreover have "set (filter P ds) = {d \<in> set ds. P d}" by auto
  ultimately show ?thesis using x by simp
qed

section \<open>Weekly recurrence on given days\<close>

text \<open>
  For days given in ascending order the code finds the smallest day after the current
  weekday, and wraps to the smallest day of all.
\<close>

lemma weekly_sorted_next:
  assumes w: "recurringType task = Some ''weekly''" and ne: "daysOf task \<noteq> []"
    and so: "sorted (daysOf task)"
  defines "wd \<equiv> getDay (dueDate task)"
  defines "later \<equiv> {d \<in> set (daysOf task). wd < d}"
  shows "later \<noteq> {} \<Longrightarrow>
           calculateNextDueDate task = TimeClip (dueDate task + (Min later - wd) * msPerDay)"
    and "later = {} \<Longrightarrow>
           calculateNextDueDate task
             = TimeClip (dueDate task + (7 - wd + Min (set (daysOf task))) * msPerDay)"
proof -
  have f: "set (filter (\<lambda>day. wd < day) (daysOf task)) = later"
    by (auto simp add: later_def)
  have c: "calculateNextDueDate task =
    (if filter (\<lambda>day. wd < day) (daysOf task) \<noteq> []
     then TimeClip (dueDate task + (hd (filter (\<lambda>day. wd < day) (daysOf task)) - wd) * msPerDay)
     else TimeClip (dueDate task + (7 - wd + hd (daysOf task)) * msPerDay))"
    using calculateNextDueDate_weekly_days [OF w ne] by (simp add: Let_def wd_def)
  show "calculateNextDueDate task = TimeClip (dueDate task + (Min later - wd) * msPerDay)"
    if "later \<noteq> {}"
  proof -
    have n: "filter (\<lambda>day. wd < day) (daysOf task) \<noteq> []"
      using that f by (metis empty_set)
    have "hd (filter (\<lambda>day. wd < day) (daysOf task)) = Min later"
      using hd_filter_sorted_Min [OF so n] by (simp add: later_def)
    then show ?thesis using c n by simp
  qed
  show "calculateNextDueDate task
          = TimeClip (dueDate task + (7 - wd + Min (set (daysOf task))) * msPerDay)"
    if "later = {}"
  proof -
    have n: "filter (\<lambda>day. wd < day) (daysOf task) = []"
      using that f by (metis set_empty)
    have t: "filter (\<lambda>day. True) (daysOf task) \<noteq> []" using ne by simp
    have "hd (daysOf task) = Min (set (daysOf task))"
      using hd_filter_sorted_Min [OF so t] by simp
    then show ?thesis using c n by simp
  qed
qed

text \<open>
  With the days Monday, Wednesday, Friday: from a Wednesday the Friday two days later,
  from a Friday the Monday three days later (each a valid date when within the range of
  \<^verbatim>\<open>Date\<close>).
\<close>

lemma weekly_mon_wed_fri:
  assumes "recurringType task = Some ''weekly''" and "recurringDays task = Some [1, 3, 5]"
  shows "getDay (dueDate task) = 3 \<Longrightarrow>
           calculateNextDueDate task = TimeClip (dueDate task + 2 * msPerDay)
           \<and> getDay (dueDate task + 2 * msPerDay) = 5"
    and "getDay (dueDate task) = 5 \<Longrightarrow>
           calculateNextDueDate task = TimeClip (dueDate task + 3 * msPerDay)
           \<and> getDay (dueDate task + 3 * msPerDay) = 1"
proof -
  have d: "daysOf task = [1, 3, 5]" using assms(2) by (simp add: daysOf_def)
  have ne: "daysOf task \<noteq> []" using d by simp
  note c = calculateNextDueDate_weekly_days [OF assms(1) ne]
  show "calculateNextDueDate task = TimeClip (dueDate task + 2 * msPerDay)
           \<and> getDay (dueDate task + 2 * msPerDay) = 5" if "getDay (dueDate task) = 3"
  proof -
    have "calculateNextDueDate task = TimeClip (dueDate task + 2 * msPerDay)"
      using c that by (simp add: d Let_def)
    then show ?thesis using getDay_add [of "dueDate task" 2] that by simp
  qed
  show "calculateNextDueDate task = TimeClip (dueDate task + 3 * msPerDay)
           \<and> getDay (dueDate task + 3 * msPerDay) = 1" if "getDay (dueDate task) = 5"
  proof -
    have "calculateNextDueDate task = TimeClip (dueDate task + 3 * msPerDay)"
      using c that by (simp add: d Let_def)
    then show ?thesis using getDay_add [of "dueDate task" 3] that by simp
  qed
qed

section \<open>Months\<close>

lemma month_cases:
  fixes m :: int
  assumes "0 \<le> m" "m \<le> 11"
  shows "m = 0 \<or> m = 1 \<or> m = 2 \<or> m = 3 \<or> m = 4 \<or> m = 5 \<or> m = 6 \<or> m = 7
         \<or> m = 8 \<or> m = 9 \<or> m = 10 \<or> m = 11"
proof -
  have "m \<in> {0..11}" using assms by simp
  also have "{0..11::int} = set [0..11]" by simp
  also have "[0..11::int] = [0,1,2,3,4,5,6,7,8,9,10,11]" by code_simp
  finally show ?thesis by simp
qed

lemma leapFlag_range: "0 \<le> leapFlag y \<and> leapFlag y \<le> 1"
  by (simp add: leapFlag_def)

lemma DaysInYear_leapFlag: "DaysInYear y = 365 + leapFlag y"
  using DaysInYear_cases [of y] by (auto simp add: leapFlag_def)

text \<open>A day of a month, as a day of its year.\<close>

lemma day_in_month:
  assumes m: "0 \<le> m" "m \<le> 11" and d: "1 \<le> dt" "dt \<le> daysInMonthOf y m"
  shows "0 \<le> monthStart (leapFlag y) m + dt - 1"
    and "monthStart (leapFlag y) m + dt - 1 < DaysInYear y"
    and "monthOfDay (leapFlag y) (monthStart (leapFlag y) m + dt - 1) = m"
proof -
  have l: "0 \<le> leapFlag y" "leapFlag y \<le> 1" using leapFlag_range by simp_all
  have c: "m = 0 \<or> m = 1 \<or> m = 2 \<or> m = 3 \<or> m = 4 \<or> m = 5 \<or> m = 6 \<or> m = 7
         \<or> m = 8 \<or> m = 9 \<or> m = 10 \<or> m = 11"
    using m by (rule month_cases)
  show "0 \<le> monthStart (leapFlag y) m + dt - 1"
    using c l d(1) by (elim disjE) (simp_all add: monthStart_def)
  show "monthStart (leapFlag y) m + dt - 1 < DaysInYear y"
    using c l d by (elim disjE) (simp_all add: monthStart_def daysInMonthOf_def DaysInYear_leapFlag)
  show "monthOfDay (leapFlag y) (monthStart (leapFlag y) m + dt - 1) = m"
    using c l d by (elim disjE) (simp_all add: monthStart_def daysInMonthOf_def monthOfDay_def)
qed

lemma MakeDay_valid:
  assumes "0 \<le> m" "m \<le> 11"
  shows "MakeDay y m dt = DayFromYear y + (monthStart (leapFlag y) m + dt - 1)"
  using MakeDay_in_year [OF assms, of y dt] by (simp add: leapFlag_def)

lemma Day_MakeDate:
  assumes "0 \<le> tod" "tod < msPerDay"
  shows "Day (MakeDate d tod) = d" and "TimeWithinDay (MakeDate d tod) = tod"
proof -
  have p: "0 < msPerDay" by (simp add: msPerDay_def)
  have e: "MakeDate d tod = msPerDay * d + tod" by (simp add: MakeDate_def)
  show "Day (MakeDate d tod) = d"
    unfolding Day_def using e assms by (intro int_div_pos_eq) simp_all
  show "TimeWithinDay (MakeDate d tod) = tod"
    unfolding TimeWithinDay_def using e assms by (intro int_mod_pos_eq) simp_all
qed

lemma TimeWithinDay_range: "0 \<le> TimeWithinDay t \<and> TimeWithinDay t < msPerDay"
  by (simp add: TimeWithinDay_def msPerDay_def)

text \<open>The year, month and date of a valid calendar date are read back as they were set.\<close>

lemma civil_roundtrip:
  assumes m: "0 \<le> m" "m \<le> 11" and d: "1 \<le> dt" "dt \<le> daysInMonthOf y m"
    and tod: "0 \<le> tod" "tod < msPerDay"
  defines "t \<equiv> MakeDate (MakeDay y m dt) tod"
  shows "YearFromTime t = y" and "MonthFromTime t = m" and "DateFromTime t = dt"
    and "TimeWithinDay t = tod"
proof -
  let ?k = "monthStart (leapFlag y) m + dt - 1"
  have k: "0 \<le> ?k" "?k < DaysInYear y" "monthOfDay (leapFlag y) ?k = m"
    using day_in_month [OF m d] by simp_all
  have day: "Day t = DayFromYear y + ?k"
    unfolding t_def using Day_MakeDate(1) [OF tod] MakeDay_valid [OF m] by simp
  have "DayFromYear y \<le> Day t" "Day t < DayFromYear (y + 1)"
    using day k DayFromYear_Suc [of y] by simp_all
  then have "YearFromDay (Day t) = y" by (rule YearFromDay_unique)
  then show y: "YearFromTime t = y" by (simp add: YearFromTime_def)
  have l: "InLeapYear t = leapFlag y" by (simp add: InLeapYear_def leapFlag_def y)
  have w: "DayWithinYear t = ?k" by (simp add: DayWithinYear_def y day)
  show mo: "MonthFromTime t = m" by (simp add: MonthFromTime_def l w k)
  show "DateFromTime t = dt" by (simp add: DateFromTime_def l w mo)
  show "TimeWithinDay t = tod" unfolding t_def using Day_MakeDate(2) [OF tod] by simp
qed


lemma daysInMonthOf_range: "28 \<le> daysInMonthOf y m \<and> daysInMonthOf y m \<le> 31"
  using leapFlag_range [of y] by (simp add: daysInMonthOf_def)

lemma monthStart_next:
  assumes "0 \<le> m" "m \<le> 10"
  shows "monthStart (leapFlag y) (m + 1) = monthStart (leapFlag y) m + daysInMonthOf y m"
proof -
  have "m = 0 \<or> m = 1 \<or> m = 2 \<or> m = 3 \<or> m = 4 \<or> m = 5 \<or> m = 6 \<or> m = 7
         \<or> m = 8 \<or> m = 9 \<or> m = 10 \<or> m = 11"
    using assms by (intro month_cases) simp_all
  then show ?thesis
    using assms(2) by (elim disjE) (simp_all add: monthStart_def daysInMonthOf_def)
qed

text \<open>Day 0 of the month after \<open>m\<close> is the last day of \<open>m\<close>.\<close>

lemma MakeDay_day_0:
  assumes "0 \<le> m" "m \<le> 11"
  shows "MakeDay y (m + 1) 0 = MakeDay y m (daysInMonthOf y m)"
proof (cases "m = 11")
  case True
  have "MakeDay y 12 0 = DayFromYear (y + 1) - 1"
    by (simp add: MakeDay_def monthStart_def)
  also have "\<dots> = DayFromYear y + (monthStart (leapFlag y) 11 + daysInMonthOf y 11 - 1)"
    by (simp add: DayFromYear_Suc DaysInYear_leapFlag monthStart_def daysInMonthOf_def)
  also have "\<dots> = MakeDay y 11 (daysInMonthOf y 11)"
    by (simp add: MakeDay_valid)
  finally show ?thesis using True by simp
next
  case False
  then have m: "0 \<le> m" "m \<le> 10" using assms by simp_all
  have "MakeDay y (m + 1) 0 = DayFromYear y + (monthStart (leapFlag y) (m + 1) + 0 - 1)"
    using m by (intro MakeDay_valid) simp_all
  also have "\<dots> = DayFromYear y + (monthStart (leapFlag y) m + daysInMonthOf y m - 1)"
    by (simp add: monthStart_next [OF m])
  also have "\<dots> = MakeDay y m (daysInMonthOf y m)"
    using assms by (simp add: MakeDay_valid)
  finally show ?thesis .
qed

lemma getDate_Date_ymd:
  assumes "0 \<le> m" "m \<le> 11" and v: "Date_ymd y (m + 1) 0 = Some t"
  shows "getDate t = daysInMonthOf (if 0 \<le> y \<and> y \<le> 99 then 1900 + y else y) m"
proof -
  let ?yr = "if 0 \<le> y \<and> y \<le> 99 then 1900 + y else y"
  have r: "1 \<le> daysInMonthOf ?yr m" "daysInMonthOf ?yr m \<le> daysInMonthOf ?yr m"
    using daysInMonthOf_range [of ?yr m] by simp_all
  have z: "(0::int) \<le> 0" "0 < msPerDay" by (simp_all add: msPerDay_def)
  have "Date_ymd y (m + 1) 0 = TimeClip (MakeDate (MakeDay ?yr m (daysInMonthOf ?yr m)) 0)"
    unfolding Date_ymd_def Let_def MakeDay_day_0 [OF assms(1,2)] ..
  then have "t = MakeDate (MakeDay ?yr m (daysInMonthOf ?yr m)) 0"
    using v TimeClip_Some by simp
  then show ?thesis
    using civil_roundtrip(3) [OF assms(1,2) r z] by (simp add: getDate_def)
qed

lemma leapFlag_century:
  assumes "1 \<le> y" "y \<le> 99"
  shows "leapFlag (1900 + y) = leapFlag y"
proof -
  have a: "(1900 + y) mod 4 = y mod 4"
    using mod_mult_self2 [of y 4 475] by (simp add: add.commute)
  have b: "(1900 + y) mod 100 = y mod 100"
    using mod_mult_self2 [of y 100 19] by (simp add: add.commute)
  have c: "y mod 100 = y" using assms by simp
  have "DaysInYear (1900 + y) = DaysInYear y"
    unfolding DaysInYear_def a b c using assms by simp
  then show ?thesis by (simp add: leapFlag_def)
qed

lemma daysInMonthOf_century:
  assumes "\<not> (y = 0 \<and> m = 1)"
  shows "daysInMonthOf (if 0 \<le> y \<and> y \<le> 99 then 1900 + y else y) m = daysInMonthOf y m"
proof (cases "0 \<le> y \<and> y \<le> 99")
  case False
  then show ?thesis by auto
next
  case True
  show ?thesis
  proof (cases "m = 1")
    case False
    then show ?thesis by (simp add: daysInMonthOf_def)
  next
    case m: True
    then have "1 \<le> y" "y \<le> 99" using True assms by simp_all
    then show ?thesis using True by (simp add: daysInMonthOf_def leapFlag_century)
  qed
qed

text \<open>
  The \<^verbatim>\<open>monthly\<close> branch with a day of the month: a next due date that is a valid date lies
  in the following month, on the day asked for or on the last day of that month, at the
  same time of day.  The one exception is a due date in January of the year 0.
\<close>

lemma monthly_next:
  assumes ty: "recurringType task = Some ''monthly''"
    and rd: "recurringDate task = Some d" and d: "1 \<le> d"
    and ny: "\<not> (getFullYear (dueDate task) = 0 \<and> getMonth (dueDate task) = 0)"
    and res: "calculateNextDueDate task = Some r"
  defines "cur \<equiv> dueDate task"
  defines "targetYear \<equiv> (if getMonth cur = 11 then getFullYear cur + 1 else getFullYear cur)"
  defines "normalizedMonth \<equiv> (getMonth cur + 1) mod 12"
  shows "getFullYear r = targetYear
       \<and> getMonth r = normalizedMonth
       \<and> getDate r = min d (daysInMonthOf targetYear normalizedMonth)
       \<and> TimeWithinDay r = TimeWithinDay cur"
proof -
  let ?tod = "TimeWithinDay cur"
  have cm: "0 \<le> getMonth cur" "getMonth cur \<le> 11"
    using monthOfDay_range by (simp_all add: getMonth_def MonthFromTime_def)
  have nm: "0 \<le> normalizedMonth" "normalizedMonth \<le> 11"
    by (simp_all add: normalizedMonth_def)
  have tyr: "getFullYear cur + (if 11 < getMonth cur + 1 then 1 else 0) = targetYear"
    using cm by (simp add: targetYear_def)
  have tod: "0 \<le> ?tod" "?tod < msPerDay"
    using TimeWithinDay_range by simp_all
  have ex: "\<not> (targetYear = 0 \<and> normalizedMonth = 1)"
  proof
    assume a: "targetYear = 0 \<and> normalizedMonth = 1"
    then have "getMonth cur = 0"
      using cm by (simp add: normalizedMonth_def) presburger
    then show False using a ny by (simp add: targetYear_def cur_def)
  qed
  let ?dim = "daysInMonthOf targetYear normalizedMonth"
  have one: "(1::int) \<le> 1" "1 \<le> ?dim"
    using daysInMonthOf_range [of targetYear normalizedMonth] by simp_all
  have h: "hasRecurringDate task"
    using rd d by (simp add: hasRecurringDate_def)
  have c0: "calculateNextDueDate task =
      Option.bind
        (setFullYear cur (getFullYear cur + (if 11 < getMonth cur + 1 then 1 else 0))
           ((getMonth cur + 1) mod 12) 1)
        (\<lambda>t. Option.bind
           (map_option (min d)
              (map_option getDate
                 (Date_ymd (getFullYear cur + (if 11 < getMonth cur + 1 then 1 else 0))
                    ((getMonth cur + 1) mod 12 + 1) 0)))
           (setDate t))"
    using ty rd h by (simp add: calculateNextDueDate_def Let_def cur_def)
  have c: "calculateNextDueDate task =
      Option.bind (setFullYear cur targetYear normalizedMonth 1)
        (\<lambda>t. Option.bind
           (map_option (min d)
              (map_option getDate (Date_ymd targetYear (normalizedMonth + 1) 0)))
           (setDate t))"
    unfolding c0 tyr normalizedMonth_def [symmetric] ..
  obtain t1 t2 where t1: "setFullYear cur targetYear normalizedMonth 1 = Some t1"
    and t2: "Date_ymd targetYear (normalizedMonth + 1) 0 = Some t2"
    and r: "setDate t1 (min d (getDate t2)) = Some r"
    using res unfolding c by (auto simp add: bind_eq_Some_conv)
  have e1: "t1 = MakeDate (MakeDay targetYear normalizedMonth 1) ?tod"
    using t1 TimeClip_Some by (simp add: setFullYear_def)
  have nd1: "YearFromTime t1 = targetYear" "MonthFromTime t1 = normalizedMonth"
    "TimeWithinDay t1 = ?tod"
    unfolding e1 using civil_roundtrip(1,2,4) [OF nm one tod] by simp_all
  have dim: "getDate t2 = ?dim"
    using getDate_Date_ymd [OF nm t2] daysInMonthOf_century [OF ex] by simp
  let ?day = "min d ?dim"
  have day: "1 \<le> ?day" "?day \<le> ?dim"
    using d one by simp_all
  have e: "r = MakeDate (MakeDay targetYear normalizedMonth ?day) ?tod"
    using r TimeClip_Some by (simp add: setDate_def nd1 dim)
  show ?thesis
    unfolding e getFullYear_def getMonth_def getDate_def
    using civil_roundtrip [OF nm day tod] by simp
qed

section \<open>The next due date\<close>

text \<open>
  Claim C3, at an input where the code departs from it.  The task \<open>unsortedDaysTask\<close> is due
  on a Monday (weekday 1) and recurs on the weekdays 5, 1, 3 in this order.  The smallest
  of its weekdays after Monday is Wednesday (3), two days later; the code takes the first
  element of the filtered array, 5, and returns the Friday four days later.
\<close>

theorem C3_weekly_unsorted_days:
  "getDay (dueDate unsortedDaysTask) = 1
   \<and> calculateNextDueDate unsortedDaysTask = Some (dueDate unsortedDaysTask + 4 * msPerDay)
   \<and> getDay (dueDate unsortedDaysTask + 4 * msPerDay) = 5"
  by code_simp

text \<open>
  Claim C4, at an input where the code departs from it.  The task \<open>yearZeroTask\<close> is due on
  15 January of the year 0 and recurs on the 31st.  February of the year 0 has 29 days, so
  the claim gives 29 February.  The code computes the length of the month with
  \<^verbatim>\<open>new Date(targetYear, normalizedMonth + 1, 0)\<close>, and the constructor reads the year 0 as
  1900, whose February has 28 days: the code returns 28 February (time value
  \<open>-62162208000000\<close>), and the day after it is still in February.  Everywhere else a next
  due date that is a valid date is as the claim says (lemma \<open>monthly_next\<close>).
\<close>

theorem C4_monthly_year_0:
  "(getFullYear (dueDate yearZeroTask), getMonth (dueDate yearZeroTask),
      getDate (dueDate yearZeroTask)) = (0, 0, 15)
   \<and> calculateNextDueDate yearZeroTask = Some (- 62162208000000)
   \<and> (getFullYear (- 62162208000000), getMonth (- 62162208000000),
        getDate (- 62162208000000)) = (0, 1, 28)
   \<and> min 31 (daysInMonthOf 0 1) = 29
   \<and> (getMonth (- 62162208000000 + msPerDay), getDate (- 62162208000000 + msPerDay)) = (1, 29)"
  by code_simp




text \<open>
  Claim C10: when the recurrence type is absent or none of \<^verbatim>\<open>daily\<close>, \<^verbatim>\<open>weekly\<close>,
  \<^verbatim>\<open>monthly\<close>, \<^verbatim>\<open>custom\<close>, the next due date is the task's due date, and an instance that
  \<open>createRecurringTaskInstance\<close> returns for such a parent has the parent's due date.
\<close>

theorem C10_unknown_type_keeps_dueDate:
  assumes "recurringType task \<notin> {Some ''daily'', Some ''weekly'', Some ''monthly'', Some ''custom''}"
  shows "calculateNextDueDate task = Some (dueDate task)
         \<and> (createRecurringTaskInstance w task = (Some inst, w') \<longrightarrow> dueDate inst = dueDate task)"
proof -
  have c: "calculateNextDueDate task = Some (dueDate task)"
    using assms by (rule calculateNextDueDate_other)
  have "dueDate inst = dueDate task" if "createRecurringTaskInstance w task = (Some inst, w')"
    using that
    by (auto simp add: createRecurringTaskInstance_def c Let_def newTaskInstance_def
          split: if_splits prod.splits sum.splits)
  with c show ?thesis by simp
qed

theorem C10_unknown_type_keeps_dueDate_witness:
  "recurringType yearlyTask \<notin> {Some ''daily'', Some ''weekly'', Some ''monthly'', Some ''custom''}
   \<and> calculateNextDueDate yearlyTask = Some (dueDate yearlyTask)
   \<and> createRecurringTaskInstance exampleWorld yearlyTask
       = (Some (newTaskInstance 1 yearlyTask 1704067200000),
          snd (createRecurringTaskInstance exampleWorld yearlyTask))
   \<and> dueDate (newTaskInstance 1 yearlyTask 1704067200000) = dueDate yearlyTask"
proof -
  have t: "recurringType yearlyTask \<notin> {Some ''daily'', Some ''weekly'', Some ''monthly'', Some ''custom''}"
    by (simp add: yearlyTask_def exampleRoot_def)
  have r: "createRecurringTaskInstance exampleWorld yearlyTask
       = (Some (newTaskInstance 1 yearlyTask 1704067200000),
          snd (createRecurringTaskInstance exampleWorld yearlyTask))"
    by code_simp
  show ?thesis
    using t r C10_unknown_type_keeps_dueDate [OF t, of exampleWorld
        "newTaskInstance 1 yearlyTask 1704067200000"
        "snd (createRecurringTaskInstance exampleWorld yearlyTask)"]
    by simp
qed


section \<open>Storage calls and instance creation\<close>

lemma io_step_tasks [simp]: "tasks (snd (io_step w)) = tasks w"
  by (simp add: io_step_def split: list.splits)

lemma io_step_fields [simp]:
  "notifications (snd (io_step w)) = notifications w"
  "console (snd (io_step w)) = console w"
  "emitted (snd (io_step w)) = emitted w"
  "nextId (snd (io_step w)) = nextId w"
  by (simp_all add: io_step_def split: list.splits)

lemma io_step_faults:
  "count_list (faults w) True =
   count_list (faults (snd (io_step w))) True + (if fst (io_step w) then 1 else 0)"
  by (simp add: io_step_def split: list.splits)

lemma io_step_fst_cong: "faults a = faults b \<Longrightarrow> fst (io_step a) = fst (io_step b)"
  by (simp add: io_step_def split: list.splits)

lemma newObjectId_simps [simp]:
  "tasks (snd (newObjectId w)) = tasks w"
  "faults (snd (newObjectId w)) = faults w"
  "console (snd (newObjectId w)) = console w"
  "notifications (snd (newObjectId w)) = notifications w"
  "nextId (snd (newObjectId w)) = Suc (nextId w)"
  "fst (newObjectId w) = nextId w"
  "fst (io_step (snd (newObjectId w))) = fst (io_step w)"
  by (simp_all add: newObjectId_def io_step_def split: list.splits)

lemma newObjectId_io_faults [simp]:
  "faults (snd (io_step (snd (newObjectId w)))) = faults (snd (io_step w))"
  by (simp add: newObjectId_def io_step_def split: list.splits)

lemma console_error_simps [simp]:
  "tasks (console_error m w) = tasks w"
  "faults (console_error m w) = faults w"
  "console (console_error m w) = console w @ [ConsoleError m]"
  by (simp_all add: console_error_def)

lemma console_log_simps [simp]:
  "tasks (console_log m n w) = tasks w"
  "faults (console_log m n w) = faults w"
  "console (console_log m n w) = console w @ [ConsoleLog m n]"
  by (simp_all add: console_log_def)

lemma createNotification_tasks [simp]:
  "tasks (snd (createNotification w u m ty e)) = tasks w"
  by (simp add: createNotification_def newObjectId_def Notification_save_def console_error_def
      io_step_def Let_def split: list.splits)

lemma createNotification_faults:
  "count_list (faults (snd (createNotification w u m ty e))) True \<le> count_list (faults w) True"
  by (simp add: createNotification_def newObjectId_def Notification_save_def console_error_def
      io_step_def Let_def split: list.splits)

lemma createNotification_notifications:
  "notifications (snd (createNotification w u m ty e)) =
     notifications w @
     (if fst (io_step w) then []
      else [\<lparr>n_id = nextId w, n_user = u, n_message = m, n_type = ty, n_entityId = e\<rparr>])"
  by (simp add: createNotification_def newObjectId_def Notification_save_def Let_def split_def
      io_step_def console_error_def split: list.splits)

lemma createNotification_console:
  "console (snd (createNotification w u m ty e)) =
     console w @ (if fst (io_step w) then [ConsoleError ''Error creating notification:''] else [])"
  by (simp add: createNotification_def newObjectId_def Notification_save_def Let_def split_def
      io_step_def console_error_def split: list.splits)

text \<open>The four outcomes of \<open>createRecurringTaskInstance\<close>.\<close>

lemma pastEndDate_None [simp]: "\<not> pastEndDate p None"
  by (simp add: pastEndDate_def split: option.splits)

lemma create_past_end:
  "pastEndDate p (calculateNextDueDate p) \<Longrightarrow> createRecurringTaskInstance w p = (None, w)"
  by (simp add: createRecurringTaskInstance_def)

lemma create_invalid:
  assumes "calculateNextDueDate p = None"
  shows "createRecurringTaskInstance w p =
    (None, console_error ''Error creating recurring task instance:'' (snd (newObjectId w)))"
  using assms by (simp add: createRecurringTaskInstance_def Let_def split_def)

lemma create_save_throws:
  assumes "calculateNextDueDate p = Some n" and "\<not> pastEndDate p (Some n)"
    and "fst (io_step w)"
  shows "createRecurringTaskInstance w p =
    (None, console_error ''Error creating recurring task instance:''
             (snd (io_step (snd (newObjectId w)))))"
proof -
  have "fst (io_step (snd (newObjectId w)))"
    using assms(3) by simp
  then show ?thesis
    using assms(1,2)
    by (simp add: createRecurringTaskInstance_def Task_save_def Let_def split_def)
qed

lemma create_saved:
  assumes "calculateNextDueDate p = Some n" and "\<not> pastEndDate p (Some n)"
    and "\<not> fst (io_step w)"
  shows "createRecurringTaskInstance w p =
    (let inst = newTaskInstance (nextId w) p n;
         w1 = snd (io_step (snd (newObjectId w)));
         w2 = w1\<lparr>tasks := tasks w1 @ [inst]\<rparr>
     in (Some inst,
         if assignedTo p \<noteq> createdBy p
         then snd (createNotification w2 (assignedTo p) (''New recurring task: '' @ title p)
                     ''task_assigned'' (Some (nextId w)))
         else w2))"
proof -
  have "\<not> fst (io_step (snd (newObjectId w)))"
    using assms(3) by simp
  then show ?thesis
    using assms(1,2)
    by (simp add: createRecurringTaskInstance_def Task_save_def Let_def split_def
        newTaskInstance_def)
qed

lemma create_saved_world:
  assumes "calculateNextDueDate p = Some n" and "\<not> pastEndDate p (Some n)"
    and "\<not> fst (io_step w)"
  shows "\<exists>w2. createRecurringTaskInstance w p =
           (Some (newTaskInstance (nextId w) p n),
            if assignedTo p \<noteq> createdBy p
            then snd (createNotification w2 (assignedTo p) (''New recurring task: '' @ title p)
                        ''task_assigned'' (Some (nextId w)))
            else w2)
         \<and> tasks w2 = tasks w @ [newTaskInstance (nextId w) p n]
         \<and> notifications w2 = notifications w \<and> console w2 = console w
         \<and> nextId w2 = Suc (nextId w) \<and> faults w2 = faults (snd (io_step w))"
proof -
  let ?w1 = "snd (io_step (snd (newObjectId w)))"
  let ?w2 = "?w1\<lparr>tasks := tasks ?w1 @ [newTaskInstance (nextId w) p n]\<rparr>"
  have "createRecurringTaskInstance w p =
           (Some (newTaskInstance (nextId w) p n),
            if assignedTo p \<noteq> createdBy p
            then snd (createNotification ?w2 (assignedTo p) (''New recurring task: '' @ title p)
                        ''task_assigned'' (Some (nextId w)))
            else ?w2)"
    unfolding create_saved [OF assms] Let_def ..
  moreover have "tasks ?w2 = tasks w @ [newTaskInstance (nextId w) p n]"
    by simp
  moreover have "notifications ?w2 = notifications w" "console ?w2 = console w"
    "nextId ?w2 = Suc (nextId w)"
    by simp_all
  moreover have "faults ?w2 = faults (snd (io_step w))"
    by simp
  ultimately show ?thesis by blast
qed

lemma create_cases:
  obtains
    (past) "pastEndDate p (calculateNextDueDate p)"
      "createRecurringTaskInstance w p = (None, w)"
  | (invalid) "calculateNextDueDate p = None"
      "createRecurringTaskInstance w p =
         (None, console_error ''Error creating recurring task instance:'' (snd (newObjectId w)))"
  | (throws) n where "calculateNextDueDate p = Some n" "\<not> pastEndDate p (Some n)"
      "fst (io_step w)"
      "createRecurringTaskInstance w p =
         (None, console_error ''Error creating recurring task instance:''
                  (snd (io_step (snd (newObjectId w)))))"
  | (saved) n w2 where "calculateNextDueDate p = Some n" "\<not> pastEndDate p (Some n)"
      "\<not> fst (io_step w)"
      "createRecurringTaskInstance w p =
         (Some (newTaskInstance (nextId w) p n),
          if assignedTo p \<noteq> createdBy p
          then snd (createNotification w2 (assignedTo p) (''New recurring task: '' @ title p)
                      ''task_assigned'' (Some (nextId w)))
          else w2)"
      "tasks w2 = tasks w @ [newTaskInstance (nextId w) p n]"
      "faults w2 = faults (snd (io_step w))"
proof (cases "calculateNextDueDate p")
  case None
  then show ?thesis using invalid create_invalid by blast
next
  case (Some n)
  show ?thesis
  proof (cases "pastEndDate p (Some n)")
    case True
    then show ?thesis using past create_past_end Some by metis
  next
    case np: False
    show ?thesis
    proof (cases "fst (io_step w)")
      case True
      then show ?thesis using throws create_save_throws Some np by blast
    next
      case False
      then show ?thesis using saved create_saved_world [OF Some np False] Some np by blast
    qed
  qed
qed

text \<open>What a call adds to the collection.\<close>

lemma newTaskInstance_id: "task_id (newTaskInstance i p d) = i"
  by (simp add: newTaskInstance_def)

lemma create_tasks:
  "tasks (snd (createRecurringTaskInstance w p)) =
     tasks w @ (case fst (createRecurringTaskInstance w p) of None \<Rightarrow> [] | Some inst \<Rightarrow> [inst])"
  by (cases rule: create_cases [of p w]) simp_all

lemma create_Some:
  assumes "fst (createRecurringTaskInstance w p) = Some inst"
  shows "calculateNextDueDate p = Some (dueDate inst)
         \<and> inst = newTaskInstance (nextId w) p (dueDate inst)
         \<and> \<not> pastEndDate p (Some (dueDate inst))"
  using assms by (cases rule: create_cases [of p w]) (auto simp add: newTaskInstance_def)

lemma hasNextInstance_iff:
  "hasNextInstance p \<longleftrightarrow> (\<exists>n. calculateNextDueDate p = Some n \<and> \<not> pastEndDate p (Some n))"
  by (simp add: hasNextInstance_def split: option.splits)

lemma create_count:
  "length (tasks w) + (if hasNextInstance p then 1 else 0)
     + count_list (faults (snd (createRecurringTaskInstance w p))) True
   \<le> length (tasks (snd (createRecurringTaskInstance w p))) + count_list (faults w) True"
proof (cases rule: create_cases [of p w])
  case past
  then have "\<not> hasNextInstance p"
    by (auto simp add: hasNextInstance_iff)
  then show ?thesis using past by simp
next
  case invalid
  then have "\<not> hasNextInstance p"
    by (simp add: hasNextInstance_iff)
  then show ?thesis using invalid by simp
next
  case (throws n)
  then show ?thesis using io_step_faults [of w] by simp
next
  case (saved n w2)
  have f: "count_list (faults w2) True \<le> count_list (faults w) True"
    using saved(6) io_step_faults [of w] by simp
  have "count_list (faults (snd (createNotification w2 u m ty e))) True
          \<le> count_list (faults w) True" for u m ty e
    using createNotification_faults [of w2 u m ty e] f by simp
  moreover have "hasNextInstance p"
    using saved(1,2) by (auto simp add: hasNextInstance_iff)
  ultimately show ?thesis using saved(4,5) f by simp
qed

lemma create_generated:
  "\<exists>new. tasks (snd (createRecurringTaskInstance w p)) = tasks w @ new
         \<and> (\<forall>t \<in> set new. generatedFrom p t)"
proof (cases "fst (createRecurringTaskInstance w p)")
  case None
  then show ?thesis using create_tasks [of w p] by simp
next
  case (Some inst)
  note c = create_Some [OF Some]
  have "task_id inst = nextId w"
    using c by (metis newTaskInstance_id)
  then have "generatedFrom p inst"
    using c by (simp add: generatedFrom_def)
  then show ?thesis using Some create_tasks [of w p] by simp
qed

lemma completedLoop_generated:
  "\<exists>new. tasks (completedLoop w ps) = tasks w @ new
         \<and> (\<forall>t \<in> set new. \<exists>p \<in> set ps. generatedFrom p t)"
proof (induction ps arbitrary: w)
  case Nil
  show ?case by simp
next
  case (Cons p ps)
  obtain n1 where n1: "tasks (snd (createRecurringTaskInstance w p)) = tasks w @ n1"
    "\<forall>t \<in> set n1. generatedFrom p t"
    using create_generated [of w p] by blast
  obtain n2 where n2:
    "tasks (completedLoop (snd (createRecurringTaskInstance w p)) ps)
       = tasks (snd (createRecurringTaskInstance w p)) @ n2"
    "\<forall>t \<in> set n2. \<exists>q \<in> set ps. generatedFrom q t"
    using Cons.IH [of "snd (createRecurringTaskInstance w p)"] by blast
  have "tasks (completedLoop w (p # ps)) = tasks w @ (n1 @ n2)"
    using n1(1) n2(1) by simp
  moreover have "\<forall>t \<in> set (n1 @ n2). \<exists>q \<in> set (p # ps). generatedFrom q t"
    using n1(2) n2(2) by auto
  ultimately show ?case by blast
qed

lemma Task_countDocuments_tasks [simp]: "tasks (snd (Task_countDocuments w q)) = tasks w"
  by (simp add: Task_countDocuments_def split_def Let_def)

lemma Task_find_tasks [simp]: "tasks (snd (Task_find w q)) = tasks w"
  by (simp add: Task_find_def split_def Let_def)

lemma Task_find_result:
  "fst (Task_find w q) = Inl StorageError \<or> fst (Task_find w q) = Inr (filter q (tasks w))"
  by (simp add: Task_find_def split_def Let_def)

lemma countInstances_tasks [simp]: "tasks (snd (countInstances w p s e)) = tasks w"
  by (simp add: countInstances_def split: option.splits)

lemma existenceCheck_tasks [simp]: "tasks (snd (existenceCheck w p)) = tasks w"
  by (simp add: existenceCheck_def Let_def)

lemma upcomingLoop_generated:
  "\<exists>new. tasks (snd (upcomingLoop w c ps)) = tasks w @ new
         \<and> (\<forall>t \<in> set new. \<exists>p \<in> set ps. generatedFrom p t)"
proof (induction ps arbitrary: w c)
  case Nil
  show ?case by simp
next
  case (Cons p ps)
  let ?cnt = "existenceCheck w p"
  let ?w1 = "snd ?cnt"
  show ?case
  proof (cases "fst ?cnt")
    case (Inl e)
    then have "tasks (snd (upcomingLoop w c (p # ps))) = tasks w @ []"
      by (simp add: split_def)
    then show ?thesis by (metis empty_iff empty_set)
  next
    case (Inr n)
    show ?thesis
    proof (cases "n = 0")
      case False
      then have e: "upcomingLoop w c (p # ps) = upcomingLoop ?w1 c ps"
        using Inr by (simp add: split_def)
      obtain n2 where "tasks (snd (upcomingLoop ?w1 c ps)) = tasks ?w1 @ n2"
        "\<forall>t \<in> set n2. \<exists>q \<in> set ps. generatedFrom q t"
        using Cons.IH [of ?w1 c] by blast
      then show ?thesis unfolding e by auto
    next
      case True
      let ?cr = "createRecurringTaskInstance ?w1 p"
      let ?c' = "if fst ?cr \<noteq> None then Suc c else c"
      have e: "upcomingLoop w c (p # ps) = upcomingLoop (snd ?cr) ?c' ps"
        using Inr True by (simp add: split_def)
      obtain n1 where n1: "tasks (snd ?cr) = tasks ?w1 @ n1" "\<forall>t \<in> set n1. generatedFrom p t"
        using create_generated [of ?w1 p] by blast
      obtain n2 where n2: "tasks (snd (upcomingLoop (snd ?cr) ?c' ps)) = tasks (snd ?cr) @ n2"
        "\<forall>t \<in> set n2. \<exists>q \<in> set ps. generatedFrom q t"
        using Cons.IH [of "snd ?cr" ?c'] by blast
      have "tasks (snd (upcomingLoop w c (p # ps))) = tasks w @ (n1 @ n2)"
        unfolding e using n1(1) n2(1) by simp
      moreover have "\<forall>t \<in> set (n1 @ n2). \<exists>q \<in> set (p # ps). generatedFrom q t"
        using n1(2) n2(2) by auto
      ultimately show ?thesis by blast
    qed
  qed
qed

lemma processCompleted_generated:
  "\<exists>new. tasks (processCompletedRecurringTasks w) = tasks w @ new
         \<and> (\<forall>t \<in> set new. \<exists>p \<in> set (tasks w). isRecurring p \<and> generatedFrom p t)"
proof -
  let ?q = "\<lambda>t. isRecurring t \<and> status t = Completed"
  let ?f = "Task_find w ?q"
  show ?thesis
  proof (cases "fst ?f")
    case (Inl e)
    then have "tasks (processCompletedRecurringTasks w) = tasks w @ []"
      by (simp add: processCompletedRecurringTasks_def split_def)
    then show ?thesis by (metis empty_iff empty_set)
  next
    case (Inr ps)
    then have ps: "ps = filter ?q (tasks w)"
      using Task_find_result [of w ?q] by simp
    obtain new where new: "tasks (completedLoop (snd ?f) ps) = tasks (snd ?f) @ new"
      "\<forall>t \<in> set new. \<exists>p \<in> set ps. generatedFrom p t"
      using completedLoop_generated [of "snd ?f" ps] by blast
    have "tasks (processCompletedRecurringTasks w) = tasks w @ new"
      using Inr new(1) by (simp add: processCompletedRecurringTasks_def split_def)
    moreover have "\<forall>t \<in> set new. \<exists>p \<in> set (tasks w). isRecurring p \<and> generatedFrom p t"
      using new(2) ps by auto
    ultimately show ?thesis by blast
  qed
qed

lemma generateUpcoming_generated:
  "\<exists>new. tasks (generateUpcomingRecurringTasks w) = tasks w @ new
         \<and> (\<forall>t \<in> set new. \<exists>p \<in> set (tasks w). isRecurring p \<and> generatedFrom p t)"
proof -
  let ?q = "\<lambda>t. isRecurring t \<and> parentTaskId t = None"
  let ?f = "Task_find w ?q"
  show ?thesis
  proof (cases "fst ?f")
    case (Inl e)
    then have "tasks (generateUpcomingRecurringTasks w) = tasks w @ []"
      by (simp add: generateUpcomingRecurringTasks_def split_def)
    then show ?thesis by (metis empty_iff empty_set)
  next
    case (Inr ps)
    then have ps: "ps = filter ?q (tasks w)"
      using Task_find_result [of w ?q] by simp
    obtain new where new: "tasks (snd (upcomingLoop (snd ?f) 0 ps)) = tasks (snd ?f) @ new"
      "\<forall>t \<in> set new. \<exists>p \<in> set ps. generatedFrom p t"
      using upcomingLoop_generated [of "snd ?f" 0 ps] by blast
    have "tasks (generateUpcomingRecurringTasks w) = tasks (snd (upcomingLoop (snd ?f) 0 ps))"
      using Inr
      by (simp add: generateUpcomingRecurringTasks_def split_def Let_def split: sum.splits)
    then have "tasks (generateUpcomingRecurringTasks w) = tasks w @ new"
      using new(1) by simp
    moreover have "\<forall>t \<in> set new. \<exists>p \<in> set (tasks w). isRecurring p \<and> generatedFrom p t"
      using new(2) ps by auto
    ultimately show ?thesis by blast
  qed
qed


lemma generatedFrom_not_recurring: "generatedFrom p t \<Longrightarrow> \<not> isRecurring t"
  by (metis generatedFrom_def newTaskInstance_def task.select_convs(9))

lemma cronJob_generated:
  "\<exists>new. tasks (cronJob w) = tasks w @ new
         \<and> (\<forall>t \<in> set new. \<exists>p \<in> set (tasks w). isRecurring p \<and> generatedFrom p t)"
proof -
  let ?w1 = "w\<lparr>console := console w
                @ [ConsoleInfo ''Running scheduled task: Processing recurring tasks'']\<rparr>"
  let ?w2 = "processCompletedRecurringTasks ?w1"
  have c: "cronJob w = generateUpcomingRecurringTasks ?w2"
    by (simp add: cronJob_def Let_def)
  obtain n1 where n1: "tasks ?w2 = tasks w @ n1"
    "\<forall>t \<in> set n1. \<exists>p \<in> set (tasks w). isRecurring p \<and> generatedFrom p t"
    using processCompleted_generated [of ?w1] by auto
  obtain n2 where n2: "tasks (generateUpcomingRecurringTasks ?w2) = tasks ?w2 @ n2"
    "\<forall>t \<in> set n2. \<exists>p \<in> set (tasks ?w2). isRecurring p \<and> generatedFrom p t"
    using generateUpcoming_generated [of ?w2] by blast
  have old: "p \<in> set (tasks w)" if "p \<in> set (tasks ?w2)" "isRecurring p" for p
    using that n1 generatedFrom_not_recurring by auto
  have "tasks (cronJob w) = tasks w @ (n1 @ n2)"
    unfolding c using n1(1) n2(1) by simp
  moreover have "\<forall>t \<in> set (n1 @ n2). \<exists>p \<in> set (tasks w). isRecurring p \<and> generatedFrom p t"
    using n1(2) n2(2) old by (simp only: set_append Un_iff) blast
  ultimately show ?thesis by blast
qed

lemma take_of_append: "ys = xs @ zs \<Longrightarrow> take (length xs) ys = xs"
  by simp

section \<open>Frame and end date\<close>

text \<open>
  Claim C9: no generation operation changes a task that exists.  The collection after
  \<open>createRecurringTaskInstance\<close>, after either pass and after the whole job starts with the
  collection before it, so only rows are added; hence the next due date computed for each
  existing task is the same afterwards.
\<close>

theorem C9_generation_keeps_existing_tasks:
  "take (length (tasks w)) (tasks (snd (createRecurringTaskInstance w p))) = tasks w
   \<and> take (length (tasks w)) (tasks (processCompletedRecurringTasks w)) = tasks w
   \<and> take (length (tasks w)) (tasks (generateUpcomingRecurringTasks w)) = tasks w
   \<and> take (length (tasks w)) (tasks (cronJob w)) = tasks w
   \<and> map calculateNextDueDate (take (length (tasks w)) (tasks (cronJob w)))
       = map calculateNextDueDate (tasks w)"
proof -
  have a: "take (length (tasks w)) (tasks (snd (createRecurringTaskInstance w p))) = tasks w"
    using create_generated [of w p] by auto
  have b: "take (length (tasks w)) (tasks (processCompletedRecurringTasks w)) = tasks w"
    using processCompleted_generated [of w] by auto
  have c: "take (length (tasks w)) (tasks (generateUpcomingRecurringTasks w)) = tasks w"
    using generateUpcoming_generated [of w] by auto
  have d: "take (length (tasks w)) (tasks (cronJob w)) = tasks w"
    using cronJob_generated [of w] by auto
  show ?thesis using a b c d by simp
qed

text \<open>
  Claim C5: for a parent with an end date \<open>e\<close>, a next due date after \<open>e\<close> makes
  \<open>createRecurringTaskInstance\<close> return \<^verbatim>\<open>null\<close> and leave the world as it is (nothing saved,
  nothing logged), and an instance it returns is due on or before \<open>e\<close>.  Every row that the
  job adds to a collection is an instance of a task of that collection and is not past that
  task's end date.
\<close>

theorem C5_end_date_bounds_generation:
  assumes "recurringEndDate p = Some e"
  shows "(calculateNextDueDate p = Some n \<and> e < n
            \<longrightarrow> createRecurringTaskInstance w p = (None, w))
         \<and> (createRecurringTaskInstance w p = (Some inst, w') \<longrightarrow> dueDate inst \<le> e)
         \<and> (\<forall>t \<in> set (drop (length (tasks w0)) (tasks (cronJob w0))).
               \<exists>q \<in> set (tasks w0). parentTaskId t = Some (task_id q)
                  \<and> \<not> pastEndDate q (Some (dueDate t)))"
proof -
  have a: "createRecurringTaskInstance w p = (None, w)"
    if "calculateNextDueDate p = Some n \<and> e < n"
    using that assms by (simp add: create_past_end pastEndDate_def)
  have b: "dueDate inst \<le> e" if "createRecurringTaskInstance w p = (Some inst, w')"
  proof -
    have "\<not> pastEndDate p (Some (dueDate inst))"
      using create_Some [of w p inst] that by simp
    then show ?thesis using assms by (simp add: pastEndDate_def)
  qed
  have g: "parentTaskId t = Some (task_id q) \<and> \<not> pastEndDate q (Some (dueDate t))"
    if "generatedFrom q t" for q t
  proof -
    have "t = newTaskInstance (task_id t) q (dueDate t)"
      "\<not> pastEndDate q (Some (dueDate t))"
      using that by (simp_all add: generatedFrom_def)
    then show ?thesis
      by (metis newTaskInstance_def task.select_convs(15))
  qed
  obtain new where new: "tasks (cronJob w0) = tasks w0 @ new"
    "\<forall>t \<in> set new. \<exists>q \<in> set (tasks w0). isRecurring q \<and> generatedFrom q t"
    using cronJob_generated [of w0] by blast
  have c: "\<forall>t \<in> set (drop (length (tasks w0)) (tasks (cronJob w0))).
               \<exists>q \<in> set (tasks w0). parentTaskId t = Some (task_id q)
                  \<and> \<not> pastEndDate q (Some (dueDate t))"
  proof -
    have d: "drop (length (tasks w0)) (tasks (cronJob w0)) = new"
      using new(1) by simp
    show ?thesis unfolding d using new(2) g by blast
  qed
  show ?thesis using a b c by blast
qed

theorem C5_end_date_bounds_generation_witness:
  "recurringEndDate endedTask = Some 1704240000000
   \<and> calculateNextDueDate endedTask = Some 1704326400000
   \<and> (1704240000000 :: int) < 1704326400000
   \<and> createRecurringTaskInstance exampleWorld endedTask = (None, exampleWorld)
   \<and> recurringEndDate boundedTask = Some 1704326400000
   \<and> createRecurringTaskInstance boundedWorld boundedTask
       = (Some (newTaskInstance 1 boundedTask 1704326400000),
          snd (createRecurringTaskInstance boundedWorld boundedTask))
   \<and> dueDate (newTaskInstance 1 boundedTask 1704326400000) \<le> 1704326400000
   \<and> drop (length (tasks boundedWorld)) (tasks (cronJob boundedWorld))
       = [newTaskInstance 1 boundedTask 1704326400000]
   \<and> tasks boundedWorld = [boundedTask]
   \<and> parentTaskId (newTaskInstance 1 boundedTask 1704326400000) = Some (task_id boundedTask)
   \<and> \<not> pastEndDate boundedTask
         (Some (dueDate (newTaskInstance 1 boundedTask 1704326400000)))"
proof -
  have e1: "recurringEndDate endedTask = Some 1704240000000"
    by (simp add: endedTask_def)
  have e2: "recurringEndDate boundedTask = Some 1704326400000"
    by (simp add: boundedTask_def)
  have n: "calculateNextDueDate endedTask = Some 1704326400000"
    by code_simp
  have r: "createRecurringTaskInstance boundedWorld boundedTask
       = (Some (newTaskInstance 1 boundedTask 1704326400000),
          snd (createRecurringTaskInstance boundedWorld boundedTask))"
    by code_simp
  have d: "drop (length (tasks boundedWorld)) (tasks (cronJob boundedWorld))
       = [newTaskInstance 1 boundedTask 1704326400000]"
    by code_simp
  have t: "tasks boundedWorld = [boundedTask]"
    by (simp add: boundedWorld_def exampleWorld_def)
  show ?thesis
    using e1 e2 n r d t
      C5_end_date_bounds_generation [OF e1, of 1704326400000 exampleWorld
        exampleRoot exampleWorld boundedWorld]
      C5_end_date_bounds_generation [OF e2, of 1704326400000 boundedWorld
        "newTaskInstance 1 boundedTask 1704326400000"
        "snd (createRecurringTaskInstance boundedWorld boundedTask)" boundedWorld]
    by simp
qed

section \<open>Notifications and failures\<close>

text \<open>
  Claim C8: when the instance is built (the next due date of the parent is a valid date, not
  past its end date) and its save does not throw, \<open>createRecurringTaskInstance\<close> returns the
  instance, whatever the outcome of the storage call of the notification.  The notification
  is attempted exactly when \<open>assignedTo\<close> differs from \<open>createdBy\<close>: then it is either stored,
  or its failure is logged; otherwise nothing is stored or logged.
\<close>

theorem C8_notification_never_fails_creation:
  assumes "calculateNextDueDate p = Some n" and "\<not> pastEndDate p (Some n)"
    and "\<not> fst (io_step w)"
  shows "fst (createRecurringTaskInstance w p) = Some (newTaskInstance (nextId w) p n)
    \<and> tasks (snd (createRecurringTaskInstance w p))
           = tasks w @ [newTaskInstance (nextId w) p n]
    \<and> notifications (snd (createRecurringTaskInstance w p))
           = notifications w @
             (if assignedTo p \<noteq> createdBy p \<and> \<not> fst (io_step (snd (io_step w)))
              then [\<lparr>n_id = Suc (nextId w), n_user = assignedTo p,
                     n_message = ''New recurring task: '' @ title p,
                     n_type = ''task_assigned'', n_entityId = Some (nextId w)\<rparr>]
              else [])
    \<and> console (snd (createRecurringTaskInstance w p))
           = console w @
             (if assignedTo p \<noteq> createdBy p \<and> fst (io_step (snd (io_step w)))
              then [ConsoleError ''Error creating notification:'']
              else [])"
proof -
  obtain w2 where c: "createRecurringTaskInstance w p =
           (Some (newTaskInstance (nextId w) p n),
            if assignedTo p \<noteq> createdBy p
            then snd (createNotification w2 (assignedTo p) (''New recurring task: '' @ title p)
                        ''task_assigned'' (Some (nextId w)))
            else w2)"
    and w2: "tasks w2 = tasks w @ [newTaskInstance (nextId w) p n]"
      "notifications w2 = notifications w" "console w2 = console w"
      "nextId w2 = Suc (nextId w)"
    and fw: "faults w2 = faults (snd (io_step w))"
    using create_saved_world [OF assms] by blast
  have f: "fst (io_step w2) = fst (io_step (snd (io_step w)))"
    using fw by (rule io_step_fst_cong)
  show ?thesis
    unfolding c
    by (simp add: createNotification_notifications createNotification_console w2 f)
qed

theorem C8_notification_never_fails_creation_witness:
  "calculateNextDueDate exampleRoot = Some 1704326400000
   \<and> \<not> pastEndDate exampleRoot (Some 1704326400000)
   \<and> \<not> fst (io_step twoRootsWorld)
   \<and> fst (io_step (snd (io_step twoRootsWorld)))
   \<and> assignedTo exampleRoot \<noteq> createdBy exampleRoot
   \<and> fst (createRecurringTaskInstance twoRootsWorld exampleRoot)
       = Some (newTaskInstance 2 exampleRoot 1704326400000)
   \<and> notifications (snd (createRecurringTaskInstance twoRootsWorld exampleRoot)) = []
   \<and> console (snd (createRecurringTaskInstance twoRootsWorld exampleRoot))
       = [ConsoleError ''Error creating notification:'']"
proof -
  have n: "calculateNextDueDate exampleRoot = Some 1704326400000"
    by code_simp
  have a: "\<not> pastEndDate exampleRoot (Some 1704326400000)"
    by code_simp
  have b: "\<not> fst (io_step twoRootsWorld)"
    by code_simp
  have c: "fst (io_step (snd (io_step twoRootsWorld)))"
    by code_simp
  have d: "assignedTo exampleRoot \<noteq> createdBy exampleRoot"
    "nextId twoRootsWorld = 2"
    "notifications twoRootsWorld = []" "console twoRootsWorld = []"
    by code_simp+
  show ?thesis
    using n a b c d C8_notification_never_fails_creation [OF n a b]
    by simp
qed

lemma completedLoop_count:
  "length (tasks w) + length (filter hasNextInstance ps)
     + count_list (faults (completedLoop w ps)) True
   \<le> length (tasks (completedLoop w ps)) + count_list (faults w) True"
proof (induction ps arbitrary: w)
  case Nil
  show ?case by simp
next
  case (Cons p ps)
  let ?w' = "snd (createRecurringTaskInstance w p)"
  have a: "length (tasks w) + (if hasNextInstance p then 1 else 0)
     + count_list (faults ?w') True \<le> length (tasks ?w') + count_list (faults w) True"
    by (rule create_count)
  have b: "length (tasks ?w') + length (filter hasNextInstance ps)
     + count_list (faults (completedLoop ?w' ps)) True
   \<le> length (tasks (completedLoop ?w' ps)) + count_list (faults ?w') True"
    by (rule Cons.IH)
  show ?case using a b by (simp split: if_splits)
qed

lemma Task_find_ok:
  "\<not> fst (io_step w) \<Longrightarrow> Task_find w q = (Inr (filter q (tasks w)), snd (io_step w))"
  by (simp add: Task_find_def split_def Let_def)

lemma Task_find_throws:
  "fst (io_step w) \<Longrightarrow> Task_find w q = (Inl StorageError, snd (io_step w))"
  by (simp add: Task_find_def split_def Let_def)

lemma generateUpcoming_last_console:
  "last (console (generateUpcomingRecurringTasks w))
     \<in> insert (ConsoleError ''Error generating upcoming recurring tasks:'')
         (range (ConsoleLog ''Created new recurring task instances''))"
  by (simp add: generateUpcomingRecurringTasks_def split_def Let_def split: sum.splits)

text \<open>The steps of the two loops at a task whose instance is not saved.\<close>

lemma completedLoop_invalid:
  assumes "calculateNextDueDate p = None"
  shows "completedLoop w (p # rest)
    = completedLoop (console_error ''Error creating recurring task instance:''
                       (snd (newObjectId w))) rest"
  by (simp add: create_invalid [OF assms])

lemma completedLoop_save_throws:
  assumes "hasNextInstance p" and "fst (io_step w)"
  shows "completedLoop w (p # rest)
    = completedLoop (console_error ''Error creating recurring task instance:''
                       (snd (io_step (snd (newObjectId w))))) rest"
proof -
  obtain n where "calculateNextDueDate p = Some n" "\<not> pastEndDate p (Some n)"
    using assms(1) by (auto simp add: hasNextInstance_iff)
  then show ?thesis
    by (simp add: create_save_throws [OF _ _ assms(2)])
qed

lemma upcomingLoop_save_throws:
  assumes "fst (existenceCheck w p) = Inr 0" and "hasNextInstance p"
    and "fst (io_step (snd (existenceCheck w p)))"
  shows "upcomingLoop w c (p # rest)
    = upcomingLoop (console_error ''Error creating recurring task instance:''
                      (snd (io_step (snd (newObjectId (snd (existenceCheck w p))))))) c rest"
proof -
  obtain n where "calculateNextDueDate p = Some n" "\<not> pastEndDate p (Some n)"
    using assms(2) by (auto simp add: hasNextInstance_iff)
  then show ?thesis
    using assms(1) by (simp add: split_def create_save_throws [OF _ _ assms(3)])
qed

lemma upcomingLoop_check_throws:
  assumes "fst (existenceCheck w p) = Inl e"
  shows "upcomingLoop w c (p # rest) = (Inl e, snd (existenceCheck w p))"
  using assms by (simp add: split_def)

text \<open>
  The loop of the upcoming-root pass returns an exception exactly when, having gone through
  some of the roots, the existence check of the next one throws.
\<close>

lemma upcomingLoop_left_by_check:
  "fst (upcomingLoop w c ps) = Inl e \<longleftrightarrow>
     (\<exists>pre q post v k. ps = pre @ q # post \<and> upcomingLoop w c pre = (Inr k, v)
        \<and> fst (existenceCheck v q) = Inl e)"
proof (induction ps arbitrary: w c)
  case Nil
  show ?case by simp
next
  case (Cons a ps)
  show ?case
  proof (cases "fst (existenceCheck w a)")
    case (Inl e')
    have l: "upcomingLoop w c (a # xs) = (Inl e', snd (existenceCheck w a))" for xs
      using Inl by (simp add: split_def)
    have only: "e = e'"
      if "a # ps = pre @ q # post" "upcomingLoop w c pre = (Inr k, v)"
        "fst (existenceCheck v q) = Inl e" for pre q post v k
    proof (cases pre)
      case Nil
      then show ?thesis using that Inl by simp
    next
      case (Cons b pre')
      then have "b = a" using that(1) by simp
      then show ?thesis using that(2) l [of pre'] Cons by simp
    qed
    have here: "a # ps = [] @ a # ps \<and> upcomingLoop w c [] = (Inr c, w)
        \<and> fst (existenceCheck w a) = Inl e'"
      using Inl by simp
    show ?thesis
    proof
      assume "fst (upcomingLoop w c (a # ps)) = Inl e"
      then have "e' = e" unfolding l by simp
      then show "\<exists>pre q post v k. a # ps = pre @ q # post
          \<and> upcomingLoop w c pre = (Inr k, v) \<and> fst (existenceCheck v q) = Inl e"
        using here by blast
    next
      assume "\<exists>pre q post v k. a # ps = pre @ q # post
          \<and> upcomingLoop w c pre = (Inr k, v) \<and> fst (existenceCheck v q) = Inl e"
      then have "e = e'" using only by blast
      then show "fst (upcomingLoop w c (a # ps)) = Inl e" unfolding l by simp
    qed
  next
    case (Inr n)
    obtain w' c' where step: "upcomingLoop w c (a # xs) = upcomingLoop w' c' xs" for xs
    proof (cases "n = 0")
      case True
      let ?cr = "createRecurringTaskInstance (snd (existenceCheck w a)) a"
      have "upcomingLoop w c (a # xs)
          = upcomingLoop (snd ?cr) (if fst ?cr \<noteq> None then Suc c else c) xs" for xs
        using Inr True by (simp add: split_def)
      then show ?thesis using that by blast
    next
      case False
      have "upcomingLoop w c (a # xs) = upcomingLoop (snd (existenceCheck w a)) c xs" for xs
        using Inr False by (simp add: split_def)
      then show ?thesis using that by blast
    qed
    have "(\<exists>pre q post v k. a # ps = pre @ q # post \<and> upcomingLoop w c pre = (Inr k, v)
              \<and> fst (existenceCheck v q) = Inl e)
          \<longleftrightarrow> (\<exists>pre q post v k. ps = pre @ q # post \<and> upcomingLoop w' c' pre = (Inr k, v)
              \<and> fst (existenceCheck v q) = Inl e)"
    proof
      assume "\<exists>pre q post v k. a # ps = pre @ q # post \<and> upcomingLoop w c pre = (Inr k, v)
              \<and> fst (existenceCheck v q) = Inl e"
      then obtain pre q post v k where h: "a # ps = pre @ q # post"
        "upcomingLoop w c pre = (Inr k, v)" "fst (existenceCheck v q) = Inl e"
        by blast
      show "\<exists>pre q post v k. ps = pre @ q # post \<and> upcomingLoop w' c' pre = (Inr k, v)
              \<and> fst (existenceCheck v q) = Inl e"
      proof (cases pre)
        case Nil
        then have "q = a" "v = w" using h(1,2) by simp_all
        then show ?thesis using h(3) Inr by simp
      next
        case (Cons b pre')
        then have "b = a" "ps = pre' @ q # post" using h(1) by simp_all
        moreover have "upcomingLoop w' c' pre' = (Inr k, v)"
          using h(2) Cons \<open>b = a\<close> step [of pre'] by simp
        ultimately show ?thesis using h(3) by blast
      qed
    next
      assume "\<exists>pre q post v k. ps = pre @ q # post \<and> upcomingLoop w' c' pre = (Inr k, v)
              \<and> fst (existenceCheck v q) = Inl e"
      then obtain pre q post v k where h: "ps = pre @ q # post"
        "upcomingLoop w' c' pre = (Inr k, v)" "fst (existenceCheck v q) = Inl e"
        by blast
      have "a # ps = (a # pre) @ q # post \<and> upcomingLoop w c (a # pre) = (Inr k, v)
              \<and> fst (existenceCheck v q) = Inl e"
        using h step [of pre] by simp
      then show "\<exists>pre q post v k. a # ps = pre @ q # post \<and> upcomingLoop w c pre = (Inr k, v)
              \<and> fst (existenceCheck v q) = Inl e"
        by blast
    qed
    then show ?thesis
      unfolding step [of ps] Cons.IH [of w' c'] by simp
  qed
qed

lemma cronJob_find_throws:
  assumes "fst (io_step w)"
  shows "cronJob w = generateUpcomingRecurringTasks
           (console_error ''Error processing recurring tasks:''
              (snd (io_step (w\<lparr>console := console w
                 @ [ConsoleInfo ''Running scheduled task: Processing recurring tasks'']\<rparr>))))"
proof -
  let ?w1 = "w\<lparr>console := console w
                 @ [ConsoleInfo ''Running scheduled task: Processing recurring tasks'']\<rparr>"
  have "fst (io_step ?w1) = fst (io_step w)"
    by (rule io_step_fst_cong) simp
  then have "fst (io_step ?w1)" using assms by simp
  then show ?thesis
    by (simp add: cronJob_def Let_def processCompletedRecurringTasks_def Task_find_throws)
qed

lemma processCompleted_count:
  assumes "\<not> fst (io_step w)"
  shows "length (tasks w)
           + length (filter (\<lambda>p. isRecurring p \<and> status p = Completed \<and> hasNextInstance p)
                       (tasks w))
         \<le> length (tasks (processCompletedRecurringTasks w)) + count_list (faults w) True"
proof -
  let ?q = "\<lambda>t. isRecurring t \<and> status t = Completed"
  let ?w1 = "snd (io_step w)"
  have p: "tasks (processCompletedRecurringTasks w)
             = tasks (completedLoop ?w1 (filter ?q (tasks w)))"
    by (simp add: processCompletedRecurringTasks_def Task_find_ok [OF assms])
  have f: "count_list (faults ?w1) True = count_list (faults w) True"
    using io_step_faults [of w] assms by simp
  have "length (tasks ?w1) + length (filter hasNextInstance (filter ?q (tasks w)))
          + count_list (faults (completedLoop ?w1 (filter ?q (tasks w)))) True
        \<le> length (tasks (completedLoop ?w1 (filter ?q (tasks w)))) + count_list (faults ?w1) True"
    by (rule completedLoop_count)
  moreover have "filter hasNextInstance (filter ?q (tasks w))
      = filter (\<lambda>p. isRecurring p \<and> status p = Completed \<and> hasNextInstance p) (tasks w)"
    by (simp add: conj_commute conj_left_commute)
  ultimately show ?thesis
    using p f by simp
qed

text \<open>
  Claim C7, as stated, fails for the upcoming-root pass.  In \<open>twoRootsWorld\<close> one storage call
  throws, the \<^verbatim>\<open>countDocuments\<close> for the first root.  It is caught by the handler of the
  whole pass, outside the loop: the pass logs one error and ends, and the second root gets
  no instance, though with no failure both roots get one.
\<close>

theorem C7_count_failure_ends_pass_counterexample:
  "faults twoRootsWorld = [False, True]
   \<and> tasks (generateUpcomingRecurringTasks twoRootsWorld) = tasks twoRootsWorld
   \<and> console (generateUpcomingRecurringTasks twoRootsWorld)
       = [ConsoleError ''Error generating upcoming recurring tasks:'']
   \<and> map parentTaskId (tasks (generateUpcomingRecurringTasks (twoRootsWorld\<lparr>faults := []\<rparr>)))
       = [None, None, Some 0, Some 1]"
  by code_simp

text \<open>
  Claim C7, amended: a failure while the instance of one task is created is isolated in
  both passes; a failure of the existence check is not.

  \<^item> In the loop of the completed-parent pass, a task whose next due date is an
    \<^verbatim>\<open>Invalid Date\<close> (the save throws a \<^verbatim>\<open>ValidationError\<close>) and a task whose save throws in
    the storage call each get the entry \<^verbatim>\<open>Error creating recurring task instance:\<close> in the
    log, nothing is saved for them, and the loop goes on with the remaining tasks.
  \<^item> In the loop of the upcoming-root pass, a root whose existence check has counted no
    instance and whose save throws gets the same entry, and the loop goes on with the
    remaining roots and the same count of created instances.
  \<^item> An exception of the existence check of a root (the storage call of
    \<^verbatim>\<open>countDocuments\<close> throwing, or the \<^verbatim>\<open>CastError\<close> for a root whose next due date is an
    \<^verbatim>\<open>Invalid Date\<close>) leaves the loop of the upcoming-root pass: the remaining roots are not
    visited.
  \<^item> Nothing else leaves that loop: it returns an exception exactly when, having gone
    through some of the roots, the existence check of the next one throws.
  \<^item> In the completed-parent pass, once its query has returned, each storage failure costs
    at most the instance of one task: the number of instances added is at least the number
    of completed recurring tasks with a next instance, less the number of failures to come.
  \<^item> When the query of the completed-parent pass throws, the job logs
    \<^verbatim>\<open>Error processing recurring tasks:\<close> and runs the upcoming-root pass; and the
    upcoming-root pass of the job always runs to its own summary or its own error entry.
\<close>

theorem C7_instance_failures_are_isolated:
  "(calculateNextDueDate p = None \<longrightarrow>
      completedLoop w (p # rest)
        = completedLoop (console_error ''Error creating recurring task instance:''
                           (snd (newObjectId w))) rest)
   \<and> (hasNextInstance p \<and> fst (io_step w) \<longrightarrow>
      completedLoop w (p # rest)
        = completedLoop (console_error ''Error creating recurring task instance:''
                           (snd (io_step (snd (newObjectId w))))) rest)
   \<and> (fst (existenceCheck w p) = Inr 0 \<and> hasNextInstance p
        \<and> fst (io_step (snd (existenceCheck w p))) \<longrightarrow>
      upcomingLoop w c (p # rest)
        = upcomingLoop (console_error ''Error creating recurring task instance:''
            (snd (io_step (snd (newObjectId (snd (existenceCheck w p))))))) c rest)
   \<and> (fst (existenceCheck w p) = Inl e \<longrightarrow>
      upcomingLoop w c (p # rest) = (Inl e, snd (existenceCheck w p)))
   \<and> (fst (upcomingLoop w c ps) = Inl e \<longleftrightarrow>
        (\<exists>pre q post v k. ps = pre @ q # post \<and> upcomingLoop w c pre = (Inr k, v)
           \<and> fst (existenceCheck v q) = Inl e))
   \<and> (\<not> fst (io_step w) \<longrightarrow>
      length (tasks w)
        + length (filter (\<lambda>p. isRecurring p \<and> status p = Completed \<and> hasNextInstance p)
                    (tasks w))
      \<le> length (tasks (processCompletedRecurringTasks w)) + count_list (faults w) True)
   \<and> (fst (io_step w) \<longrightarrow>
      cronJob w = generateUpcomingRecurringTasks
        (console_error ''Error processing recurring tasks:''
           (snd (io_step (w\<lparr>console := console w
              @ [ConsoleInfo ''Running scheduled task: Processing recurring tasks'']\<rparr>)))))
   \<and> last (console (cronJob w))
       \<in> insert (ConsoleError ''Error generating upcoming recurring tasks:'')
           (range (ConsoleLog ''Created new recurring task instances''))"
proof -
  have a: "calculateNextDueDate p = None \<longrightarrow>
      completedLoop w (p # rest)
        = completedLoop (console_error ''Error creating recurring task instance:''
                           (snd (newObjectId w))) rest"
    using completedLoop_invalid [of p w rest] by blast
  have b: "hasNextInstance p \<and> fst (io_step w) \<longrightarrow>
      completedLoop w (p # rest)
        = completedLoop (console_error ''Error creating recurring task instance:''
                           (snd (io_step (snd (newObjectId w))))) rest"
    using completedLoop_save_throws [of p w rest] by blast
  have c: "fst (existenceCheck w p) = Inr 0 \<and> hasNextInstance p
        \<and> fst (io_step (snd (existenceCheck w p))) \<longrightarrow>
      upcomingLoop w c (p # rest)
        = upcomingLoop (console_error ''Error creating recurring task instance:''
            (snd (io_step (snd (newObjectId (snd (existenceCheck w p))))))) c rest"
    using upcomingLoop_save_throws [of w p c rest] by blast
  have d: "fst (existenceCheck w p) = Inl e \<longrightarrow>
      upcomingLoop w c (p # rest) = (Inl e, snd (existenceCheck w p))"
    using upcomingLoop_check_throws [of w p e c rest] by blast
  have g: "fst (upcomingLoop w c ps) = Inl e \<longleftrightarrow>
        (\<exists>pre q post v k. ps = pre @ q # post \<and> upcomingLoop w c pre = (Inr k, v)
           \<and> fst (existenceCheck v q) = Inl e)"
    by (rule upcomingLoop_left_by_check)
  have h: "\<not> fst (io_step w) \<longrightarrow>
      length (tasks w)
        + length (filter (\<lambda>p. isRecurring p \<and> status p = Completed \<and> hasNextInstance p)
                    (tasks w))
      \<le> length (tasks (processCompletedRecurringTasks w)) + count_list (faults w) True"
    using processCompleted_count [of w] by blast
  have i: "fst (io_step w) \<longrightarrow>
      cronJob w = generateUpcomingRecurringTasks
        (console_error ''Error processing recurring tasks:''
           (snd (io_step (w\<lparr>console := console w
              @ [ConsoleInfo ''Running scheduled task: Processing recurring tasks'']\<rparr>))))"
    using cronJob_find_throws [of w] by blast
  have j: "last (console (cronJob w))
       \<in> insert (ConsoleError ''Error generating upcoming recurring tasks:'')
           (range (ConsoleLog ''Created new recurring task instances''))"
    unfolding cronJob_def Let_def by (rule generateUpcoming_last_console)
  show ?thesis
    by (intro conjI; fact)
qed

theorem C7_instance_failures_are_isolated_witness:
  "calculateNextDueDate hugeIntervalTask = None
   \<and> completedLoop exampleWorld [hugeIntervalTask, exampleRoot]
       = completedLoop (console_error ''Error creating recurring task instance:''
                          (snd (newObjectId exampleWorld))) [exampleRoot]
   \<and> console (completedLoop exampleWorld [hugeIntervalTask, exampleRoot])
       = [ConsoleError ''Error creating recurring task instance:'']
   \<and> map parentTaskId (tasks (completedLoop exampleWorld [hugeIntervalTask, exampleRoot]))
       = [None, Some 0]
   \<and> hasNextInstance exampleRoot
   \<and> fst (io_step (exampleWorld\<lparr>faults := [True]\<rparr>))
   \<and> completedLoop (exampleWorld\<lparr>faults := [True]\<rparr>) [exampleRoot, secondRoot]
       = completedLoop (console_error ''Error creating recurring task instance:''
           (snd (io_step (snd (newObjectId (exampleWorld\<lparr>faults := [True]\<rparr>))))))
           [secondRoot]
   \<and> console (completedLoop (exampleWorld\<lparr>faults := [True]\<rparr>) [exampleRoot, secondRoot])
       = [ConsoleError ''Error creating recurring task instance:'']
   \<and> map parentTaskId
         (tasks (completedLoop (exampleWorld\<lparr>faults := [True]\<rparr>) [exampleRoot, secondRoot]))
       = [None, Some 1]
   \<and> fst (existenceCheck twoRootsWorld exampleRoot) = Inr 0
   \<and> fst (io_step (snd (existenceCheck twoRootsWorld exampleRoot)))
   \<and> upcomingLoop twoRootsWorld 0 [exampleRoot, secondRoot]
       = upcomingLoop (console_error ''Error creating recurring task instance:''
           (snd (io_step (snd (newObjectId (snd (existenceCheck twoRootsWorld exampleRoot)))))))
           0 [secondRoot]
   \<and> fst (upcomingLoop twoRootsWorld 0 [exampleRoot, secondRoot]) = Inr 1
   \<and> console (snd (upcomingLoop twoRootsWorld 0 [exampleRoot, secondRoot]))
       = [ConsoleError ''Error creating recurring task instance:'']
   \<and> map parentTaskId (tasks (snd (upcomingLoop twoRootsWorld 0 [exampleRoot, secondRoot])))
       = [None, None, Some 1]
   \<and> fst (existenceCheck (twoRootsWorld\<lparr>faults := [True]\<rparr>) exampleRoot) = Inl StorageError
   \<and> upcomingLoop (twoRootsWorld\<lparr>faults := [True]\<rparr>) 0 [exampleRoot, secondRoot]
       = (Inl StorageError, snd (existenceCheck (twoRootsWorld\<lparr>faults := [True]\<rparr>) exampleRoot))
   \<and> fst (upcomingLoop (twoRootsWorld\<lparr>faults := [False, False, False, True]\<rparr>) 0
             [exampleRoot, secondRoot]) = Inl StorageError
   \<and> (\<exists>pre q post v k. [exampleRoot, secondRoot] = pre @ q # post
         \<and> upcomingLoop (twoRootsWorld\<lparr>faults := [False, False, False, True]\<rparr>) 0 pre
             = (Inr k, v)
         \<and> fst (existenceCheck v q) = Inl StorageError)
   \<and> fst (existenceCheck exampleWorld hugeIntervalTask) = Inl CastError
   \<and> upcomingLoop exampleWorld 0 [hugeIntervalTask, exampleRoot]
       = (Inl CastError, snd (existenceCheck exampleWorld hugeIntervalTask))
   \<and> tasks (snd (upcomingLoop exampleWorld 0 [hugeIntervalTask, exampleRoot]))
       = tasks exampleWorld
   \<and> map parentTaskId
         (tasks (generateUpcomingRecurringTasks (twoRootsWorld\<lparr>faults := [False, False, True]\<rparr>)))
       = [None, None, Some 1]
   \<and> console (generateUpcomingRecurringTasks (twoRootsWorld\<lparr>faults := [False, False, True]\<rparr>))
       = [ConsoleError ''Error creating recurring task instance:'',
          ConsoleLog ''Created new recurring task instances'' 1]
   \<and> \<not> fst (io_step twoCompletedWorld)
   \<and> count_list (faults twoCompletedWorld) True = 1
   \<and> map parentTaskId (tasks (processCompletedRecurringTasks twoCompletedWorld))
       = [None, None, Some 1]
   \<and> length (tasks twoCompletedWorld)
        + length (filter (\<lambda>p. isRecurring p \<and> status p = Completed \<and> hasNextInstance p)
                   (tasks twoCompletedWorld))
       \<le> length (tasks (processCompletedRecurringTasks twoCompletedWorld))
          + count_list (faults twoCompletedWorld) True
   \<and> fst (io_step (twoCompletedWorld\<lparr>faults := [True]\<rparr>))
   \<and> cronJob (twoCompletedWorld\<lparr>faults := [True]\<rparr>)
       = generateUpcomingRecurringTasks
           (console_error ''Error processing recurring tasks:''
              (snd (io_step (twoCompletedWorld\<lparr>faults := [True],
                 console := console (twoCompletedWorld\<lparr>faults := [True]\<rparr>)
                   @ [ConsoleInfo ''Running scheduled task: Processing recurring tasks'']\<rparr>))))
   \<and> console (cronJob (twoCompletedWorld\<lparr>faults := [True]\<rparr>))
       = [ConsoleInfo ''Running scheduled task: Processing recurring tasks'',
          ConsoleError ''Error processing recurring tasks:'',
          ConsoleLog ''Created new recurring task instances'' 2]
   \<and> last (console (cronJob (twoCompletedWorld\<lparr>faults := [True]\<rparr>)))
       \<in> insert (ConsoleError ''Error generating upcoming recurring tasks:'')
           (range (ConsoleLog ''Created new recurring task instances''))"
proof -
  have h1: "calculateNextDueDate hugeIntervalTask = None"
    by code_simp
  have e1: "console (completedLoop exampleWorld [hugeIntervalTask, exampleRoot])
       = [ConsoleError ''Error creating recurring task instance:'']"
    "map parentTaskId (tasks (completedLoop exampleWorld [hugeIntervalTask, exampleRoot]))
       = [None, Some 0]"
    by code_simp+
  have h2: "hasNextInstance exampleRoot" "fst (io_step (exampleWorld\<lparr>faults := [True]\<rparr>))"
    by code_simp+
  have e2: "console (completedLoop (exampleWorld\<lparr>faults := [True]\<rparr>) [exampleRoot, secondRoot])
       = [ConsoleError ''Error creating recurring task instance:'']"
    "map parentTaskId
         (tasks (completedLoop (exampleWorld\<lparr>faults := [True]\<rparr>) [exampleRoot, secondRoot]))
       = [None, Some 1]"
    by code_simp+
  have h3: "fst (existenceCheck twoRootsWorld exampleRoot) = Inr 0"
    "fst (io_step (snd (existenceCheck twoRootsWorld exampleRoot)))"
    by code_simp+
  have e3: "fst (upcomingLoop twoRootsWorld 0 [exampleRoot, secondRoot]) = Inr 1"
    "console (snd (upcomingLoop twoRootsWorld 0 [exampleRoot, secondRoot]))
       = [ConsoleError ''Error creating recurring task instance:'']"
    "map parentTaskId (tasks (snd (upcomingLoop twoRootsWorld 0 [exampleRoot, secondRoot])))
       = [None, None, Some 1]"
    by code_simp+
  have h4: "fst (existenceCheck (twoRootsWorld\<lparr>faults := [True]\<rparr>) exampleRoot)
              = Inl StorageError"
    by code_simp
  have h7: "fst (existenceCheck exampleWorld hugeIntervalTask) = Inl CastError"
    by code_simp
  have e7: "tasks (snd (upcomingLoop exampleWorld 0 [hugeIntervalTask, exampleRoot]))
       = tasks exampleWorld"
    "map parentTaskId
         (tasks (generateUpcomingRecurringTasks (twoRootsWorld\<lparr>faults := [False, False, True]\<rparr>)))
       = [None, None, Some 1]"
    "console (generateUpcomingRecurringTasks (twoRootsWorld\<lparr>faults := [False, False, True]\<rparr>))
       = [ConsoleError ''Error creating recurring task instance:'',
          ConsoleLog ''Created new recurring task instances'' 1]"
    by code_simp+
  have h5: "\<not> fst (io_step twoCompletedWorld)"
    by code_simp
  have e5: "count_list (faults twoCompletedWorld) True = 1"
    "map parentTaskId (tasks (processCompletedRecurringTasks twoCompletedWorld))
       = [None, None, Some 1]"
    by code_simp+
  have h6: "fst (io_step (twoCompletedWorld\<lparr>faults := [True]\<rparr>))"
    by code_simp
  have e6: "console (cronJob (twoCompletedWorld\<lparr>faults := [True]\<rparr>))
       = [ConsoleInfo ''Running scheduled task: Processing recurring tasks'',
          ConsoleError ''Error processing recurring tasks:'',
          ConsoleLog ''Created new recurring task instances'' 2]"
    by code_simp
  note t1 = C7_instance_failures_are_isolated
      [of hugeIntervalTask exampleWorld "[exampleRoot]" 0 StorageError]
  note t2 = C7_instance_failures_are_isolated
      [of exampleRoot "exampleWorld\<lparr>faults := [True]\<rparr>" "[secondRoot]" 0 StorageError]
  note t3 = C7_instance_failures_are_isolated
      [of exampleRoot twoRootsWorld "[secondRoot]" 0 StorageError]
  note t4 = C7_instance_failures_are_isolated
      [of exampleRoot "twoRootsWorld\<lparr>faults := [True]\<rparr>" "[secondRoot]" 0 StorageError]
  note t5 = C7_instance_failures_are_isolated
      [of exampleRoot twoCompletedWorld "[secondRoot]" 0 StorageError]
  note t6 = C7_instance_failures_are_isolated
      [of exampleRoot "twoCompletedWorld\<lparr>faults := [True]\<rparr>" "[secondRoot]" 0 StorageError]
  have c1: "completedLoop exampleWorld [hugeIntervalTask, exampleRoot]
       = completedLoop (console_error ''Error creating recurring task instance:''
                          (snd (newObjectId exampleWorld))) [exampleRoot]"
    using t1 h1 by blast
  have c2: "completedLoop (exampleWorld\<lparr>faults := [True]\<rparr>) [exampleRoot, secondRoot]
       = completedLoop (console_error ''Error creating recurring task instance:''
           (snd (io_step (snd (newObjectId (exampleWorld\<lparr>faults := [True]\<rparr>))))))
           [secondRoot]"
    using t2 h2 by blast
  have c3: "upcomingLoop twoRootsWorld 0 [exampleRoot, secondRoot]
       = upcomingLoop (console_error ''Error creating recurring task instance:''
           (snd (io_step (snd (newObjectId (snd (existenceCheck twoRootsWorld exampleRoot)))))))
           0 [secondRoot]"
    using t3 h2(1) h3 by blast
  have c4: "upcomingLoop (twoRootsWorld\<lparr>faults := [True]\<rparr>) 0 [exampleRoot, secondRoot]
       = (Inl StorageError, snd (existenceCheck (twoRootsWorld\<lparr>faults := [True]\<rparr>) exampleRoot))"
    using t4 h4 by blast
  have c8: "upcomingLoop exampleWorld 0 [hugeIntervalTask, exampleRoot]
       = (Inl CastError, snd (existenceCheck exampleWorld hugeIntervalTask))"
    using C7_instance_failures_are_isolated
      [of hugeIntervalTask exampleWorld "[exampleRoot]" 0 CastError] h7
    by blast
  have h9: "fst (upcomingLoop (twoRootsWorld\<lparr>faults := [False, False, False, True]\<rparr>) 0
             [exampleRoot, secondRoot]) = Inl StorageError"
    by code_simp
  have c9: "\<exists>pre q post v k. [exampleRoot, secondRoot] = pre @ q # post
         \<and> upcomingLoop (twoRootsWorld\<lparr>faults := [False, False, False, True]\<rparr>) 0 pre
             = (Inr k, v)
         \<and> fst (existenceCheck v q) = Inl StorageError"
    using C7_instance_failures_are_isolated
      [of exampleRoot "twoRootsWorld\<lparr>faults := [False, False, False, True]\<rparr>"
         "[secondRoot]" 0 StorageError "[exampleRoot, secondRoot]"] h9
    by blast
  have c5: "length (tasks twoCompletedWorld)
        + length (filter (\<lambda>p. isRecurring p \<and> status p = Completed \<and> hasNextInstance p)
                   (tasks twoCompletedWorld))
       \<le> length (tasks (processCompletedRecurringTasks twoCompletedWorld))
          + count_list (faults twoCompletedWorld) True"
    using t5 h5 by blast
  have c6: "cronJob (twoCompletedWorld\<lparr>faults := [True]\<rparr>)
       = generateUpcomingRecurringTasks
           (console_error ''Error processing recurring tasks:''
              (snd (io_step (twoCompletedWorld\<lparr>faults := [True],
                 console := console (twoCompletedWorld\<lparr>faults := [True]\<rparr>)
                   @ [ConsoleInfo ''Running scheduled task: Processing recurring tasks'']\<rparr>))))"
    using t6 h6 by blast
  have c7: "last (console (cronJob (twoCompletedWorld\<lparr>faults := [True]\<rparr>)))
       \<in> insert (ConsoleError ''Error generating upcoming recurring tasks:'')
           (range (ConsoleLog ''Created new recurring task instances''))"
    using t6 by blast
  show ?thesis
    using h1 e1 h2 e2 h3 e3 h4 h7 e7 h5 e5 h6 e6 h9 c1 c2 c3 c4 c5 c6 c7 c8 c9
    by (simp only: simp_thms)
qed

section \<open>Running the job twice\<close>

lemma io_step_no_faults: "faults w = [] \<Longrightarrow> io_step w = (False, w)"
  by (simp add: io_step_def)

lemma createNotification_no_faults:
  "faults w = [] \<Longrightarrow> faults (snd (createNotification w u m ty e)) = []"
  by (simp add: createNotification_def newObjectId_def Notification_save_def Let_def
      io_step_def)

text \<open>Without storage failures a call adds the instance, or nothing when there is none.\<close>

lemma create_no_faults:
  assumes "faults w = []"
  shows "faults (snd (createRecurringTaskInstance w p)) = []"
    and "calculateNextDueDate p = Some n \<Longrightarrow> \<not> pastEndDate p (Some n) \<Longrightarrow>
         tasks (snd (createRecurringTaskInstance w p))
           = tasks w @ [newTaskInstance (nextId w) p n]"
    and "calculateNextDueDate p = Some n \<Longrightarrow> pastEndDate p (Some n) \<Longrightarrow>
         createRecurringTaskInstance w p = (None, w)"
proof -
  have s: "\<not> fst (io_step w)" using assms by (simp add: io_step_no_faults)
  show "faults (snd (createRecurringTaskInstance w p)) = []"
  proof (cases rule: create_cases [of p w])
    case past
    then show ?thesis using assms by simp
  next
    case invalid
    then show ?thesis using assms by simp
  next
    case (throws n)
    then show ?thesis using s by simp
  next
    case (saved n w2)
    have "faults w2 = []" using saved(6) assms by (simp add: io_step_no_faults)
    then show ?thesis using saved(4) by (simp add: createNotification_no_faults)
  qed
  show "tasks (snd (createRecurringTaskInstance w p))
           = tasks w @ [newTaskInstance (nextId w) p n]"
    if c: "calculateNextDueDate p = Some n" and np: "\<not> pastEndDate p (Some n)"
  proof -
    obtain w2 where e: "createRecurringTaskInstance w p =
           (Some (newTaskInstance (nextId w) p n),
            if assignedTo p \<noteq> createdBy p
            then snd (createNotification w2 (assignedTo p) (''New recurring task: '' @ title p)
                        ''task_assigned'' (Some (nextId w)))
            else w2)"
      and t: "tasks w2 = tasks w @ [newTaskInstance (nextId w) p n]"
      using create_saved_world [OF c np s] by blast
    show ?thesis unfolding e by (simp add: t)
  qed
  show "createRecurringTaskInstance w p = (None, w)"
    if "calculateNextDueDate p = Some n" and "pastEndDate p (Some n)"
    using that by (simp add: create_past_end)
qed

lemma count_no_faults:
  "faults w = [] \<Longrightarrow>
   Task_countDocuments w q = (Inr (length (filter q (tasks w))), w)"
  by (simp add: Task_countDocuments_def io_step_no_faults)

lemma find_no_faults:
  "faults w = [] \<Longrightarrow> Task_find w q = (Inr (filter q (tasks w)), w)"
  by (simp add: Task_find_def io_step_no_faults)

text \<open>
  The existence check of a task without storage failures: either its query cannot be built
  (the next due date or a bound of its day is an \<^verbatim>\<open>Invalid Date\<close>), in every world, or it
  counts the instances of a day that contains the next due date.
\<close>

lemma existenceCheck_cases:
  obtains (cast) "\<forall>v. existenceCheck v p = (Inl CastError, v)"
  | (count) n s e where "calculateNextDueDate p = Some n" "s \<le> n" "n < e"
      "\<forall>v. faults v = [] \<longrightarrow>
         existenceCheck v p = (Inr (length (filter (instanceOnDay p s e) (tasks v))), v)"
proof (cases "calculateNextDueDate p")
  case None
  then have "\<forall>v. existenceCheck v p = (Inl CastError, v)"
    by (simp add: existenceCheck_def countInstances_def)
  then show ?thesis by (rule cast)
next
  case (Some n)
  show ?thesis
  proof (cases "setHours0 n")
    case None
    then have "\<forall>v. existenceCheck v p = (Inl CastError, v)"
      using Some by (simp add: existenceCheck_def countInstances_def)
    then show ?thesis by (rule cast)
  next
    case s: (Some s)
    show ?thesis
    proof (cases "setDate s (getDate s + 1)")
      case None
      then have "\<forall>v. existenceCheck v p = (Inl CastError, v)"
        using Some s by (simp add: existenceCheck_def countInstances_def)
      then show ?thesis by (rule cast)
    next
      case e: (Some e)
      have p: "0 < msPerDay" by (simp add: msPerDay_def)
      have sv: "s = msPerDay * (n div msPerDay)"
        using s TimeClip_Some [of "MakeDate (Day n) 0" s]
        by (simp add: setHours0_def MakeDate_def Day_def)
      have ev: "e = s + msPerDay"
        using e TimeClip_Some [of "s + 1 * msPerDay" e] setDate_getDate [of s 1] by simp
      have lo: "s \<le> n" and hi: "n < e"
        unfolding ev sv using div_bounds [OF p, of n] by simp_all
      have "\<forall>v. faults v = [] \<longrightarrow>
         existenceCheck v p = (Inr (length (filter (instanceOnDay p s e) (tasks v))), v)"
        using Some s e by (simp add: existenceCheck_def countInstances_def count_no_faults)
      then show ?thesis using count Some lo hi by blast
    qed
  qed
qed

lemma instanceOnDay_new:
  "s \<le> n \<Longrightarrow> n < e \<Longrightarrow> instanceOnDay p s e (newTaskInstance i p n)"
  by (simp add: instanceOnDay_def newTaskInstance_def)

text \<open>
  The loop of the upcoming-root pass without storage failures: run again on the collection
  it has produced, or on a longer one, it adds nothing.
\<close>

lemma upcomingLoop_rerun:
  assumes "faults w = []"
  shows "faults (snd (upcomingLoop w c ps)) = []
         \<and> (\<exists>new. tasks (snd (upcomingLoop w c ps)) = tasks w @ new)
         \<and> (\<forall>v k. faults v = []
                \<and> (\<exists>more. tasks v = tasks (snd (upcomingLoop w c ps)) @ more)
              \<longrightarrow> tasks (snd (upcomingLoop v k ps)) = tasks v)"
  using assms
proof (induction ps arbitrary: w c)
  case Nil
  then show ?case by simp
next
  case (Cons p ps)
  note nf = Cons.prems
  show ?case
  proof (cases rule: existenceCheck_cases [of p])
    case cast
    then have "upcomingLoop v k (p # ps) = (Inl CastError, v)" for v k
      by simp
    then show ?thesis using nf by simp
  next
    case (count n s e)
    let ?cnt = "\<lambda>v. length (filter (instanceOnDay p s e) (tasks v))"
    have chk: "existenceCheck v p = (Inr (?cnt v), v)" if "faults v = []" for v
      using count(4) that by blast
    have skip: "upcomingLoop v k (p # ps) = upcomingLoop v k ps"
      if "faults v = []" "?cnt v \<noteq> 0" for v k
      using chk [OF that(1)] that(2) by simp
    have make: "upcomingLoop v k (p # ps)
        = upcomingLoop (snd (createRecurringTaskInstance v p))
            (if fst (createRecurringTaskInstance v p) \<noteq> None then Suc k else k) ps"
      if "faults v = []" "?cnt v = 0" for v k
      using chk [OF that(1)] that(2) by (simp add: split_def)
    have grow: "?cnt v \<noteq> 0" if "?cnt u \<noteq> 0" "tasks v = tasks u @ more" for u v more
      using that by (auto simp add: filter_empty_conv)
    show ?thesis
    proof (cases "?cnt w = 0")
      case False
      have e: "upcomingLoop w c (p # ps) = upcomingLoop w c ps"
        using skip [OF nf False] .
      note ih = Cons.IH [OF nf, of c]
      have "tasks (snd (upcomingLoop v k (p # ps))) = tasks v"
        if v: "faults v = []" "\<exists>more. tasks v = tasks (snd (upcomingLoop w c ps)) @ more"
        for v k
      proof -
        obtain new more where "tasks (snd (upcomingLoop w c ps)) = tasks w @ new"
          "tasks v = tasks (snd (upcomingLoop w c ps)) @ more"
          using ih v(2) by blast
        then have "tasks v = tasks w @ (new @ more)" by simp
        then have "?cnt v \<noteq> 0" using grow [OF False] by blast
        then have "upcomingLoop v k (p # ps) = upcomingLoop v k ps"
          using skip [OF v(1)] by blast
        then show ?thesis using ih v by simp
      qed
      then show ?thesis unfolding e using ih by blast
    next
      case True
      let ?cr = "createRecurringTaskInstance w p"
      let ?c' = "if fst ?cr \<noteq> None then Suc c else c"
      have e: "upcomingLoop w c (p # ps) = upcomingLoop (snd ?cr) ?c' ps"
        using make [OF nf True] .
      have f: "faults (snd ?cr) = []" using create_no_faults(1) [OF nf] .
      note ih = Cons.IH [OF f, of ?c']
      show ?thesis
      proof (cases "pastEndDate p (Some n)")
        case past: True
        have same: "createRecurringTaskInstance v p = (None, v)" for v
          using create_past_end [of p v] count(1) past by simp
        have "tasks (snd (upcomingLoop v k (p # ps))) = tasks v"
          if v: "faults v = []"
            "\<exists>more. tasks v = tasks (snd (upcomingLoop (snd ?cr) ?c' ps)) @ more"
          for v k
        proof (cases "?cnt v = 0")
          case True
          have "upcomingLoop v k (p # ps) = upcomingLoop v k ps"
            using make [OF v(1) True] by (simp add: same)
          then show ?thesis using ih v by simp
        next
          case False
          have "upcomingLoop v k (p # ps) = upcomingLoop v k ps"
            using skip [OF v(1) False] .
          then show ?thesis using ih v by simp
        qed
        moreover have "\<exists>new. tasks (snd (upcomingLoop (snd ?cr) ?c' ps)) = tasks w @ new"
          using ih by (simp add: same)
        ultimately show ?thesis unfolding e using ih by blast
      next
        case False
        let ?inst = "newTaskInstance (nextId w) p n"
        have t: "tasks (snd ?cr) = tasks w @ [?inst]"
          using create_no_faults(2) [OF nf count(1) False] .
        obtain new where new: "tasks (snd (upcomingLoop (snd ?cr) ?c' ps)) = tasks (snd ?cr) @ new"
          using ih by blast
        have found: "instanceOnDay p s e ?inst"
          using instanceOnDay_new [OF count(2,3)] .
        have "tasks (snd (upcomingLoop v k (p # ps))) = tasks v"
          if v: "faults v = []"
            "\<exists>more. tasks v = tasks (snd (upcomingLoop (snd ?cr) ?c' ps)) @ more"
          for v k
        proof -
          obtain more where "tasks v = tasks (snd (upcomingLoop (snd ?cr) ?c' ps)) @ more"
            using v(2) by blast
          then have "tasks v = tasks w @ [?inst] @ new @ more"
            using new t by simp
          then have "?cnt v \<noteq> 0" using found by (simp add: filter_empty_conv)
          then have "upcomingLoop v k (p # ps) = upcomingLoop v k ps"
            using skip [OF v(1)] by blast
          then show ?thesis using ih v by simp
        qed
        moreover have "\<exists>new. tasks (snd (upcomingLoop (snd ?cr) ?c' ps)) = tasks w @ new"
          using new t by simp
        ultimately show ?thesis unfolding e using ih by blast
      qed
    qed
  qed
qed

lemma generateUpcoming_no_faults:
  assumes "faults w = []"
  defines "roots \<equiv> filter (\<lambda>t. isRecurring t \<and> parentTaskId t = None) (tasks w)"
  shows "tasks (generateUpcomingRecurringTasks w) = tasks (snd (upcomingLoop w 0 roots))"
    and "faults (generateUpcomingRecurringTasks w) = faults (snd (upcomingLoop w 0 roots))"
  by (simp_all add: generateUpcomingRecurringTasks_def find_no_faults [OF assms(1)] roots_def
      split: prod.splits sum.splits)

lemma processCompleted_none_completed:
  assumes "faults w = []"
    and "filter (\<lambda>t. isRecurring t \<and> status t = Completed) (tasks w) = []"
  shows "tasks (processCompletedRecurringTasks w) = tasks w"
    and "faults (processCompletedRecurringTasks w) = []"
  using assms
  by (simp_all add: processCompletedRecurringTasks_def find_no_faults [OF assms(1)])

lemma filter_recurring_new:
  assumes "\<forall>t \<in> set new. \<not> isRecurring t"
  shows "filter (\<lambda>t. isRecurring t \<and> P t) (old @ new) = filter (\<lambda>t. isRecurring t \<and> P t) old"
  using assms by (simp add: filter_empty_conv)

text \<open>
  The job run twice without storage failures on a collection without a completed
  recurring task: the second run adds nothing.
\<close>

lemma cronJob_twice_without_completed:
  assumes nf: "faults w = []"
    and nc: "filter (\<lambda>t. isRecurring t \<and> status t = Completed) (tasks w) = []"
  shows "tasks (cronJob (cronJob w)) = tasks (cronJob w)"
proof -
  let ?q = "\<lambda>t. isRecurring t \<and> parentTaskId t = None"
  let ?info = "ConsoleInfo ''Running scheduled task: Processing recurring tasks''"
  have run: "tasks (cronJob v) = tasks (snd (upcomingLoop v' 0 (filter ?q (tasks v))))
             \<and> faults (cronJob v) = faults (snd (upcomingLoop v' 0 (filter ?q (tasks v))))
             \<and> tasks v' = tasks v \<and> faults v' = []"
    if "faults v = []" "filter (\<lambda>t. isRecurring t \<and> status t = Completed) (tasks v) = []"
      "v' = processCompletedRecurringTasks (v\<lparr>console := console v @ [?info]\<rparr>)"
    for v v'
  proof -
    have a: "faults (v\<lparr>console := console v @ [?info]\<rparr>) = []"
      "filter (\<lambda>t. isRecurring t \<and> status t = Completed)
         (tasks (v\<lparr>console := console v @ [?info]\<rparr>)) = []"
      using that(1,2) by simp_all
    have t: "tasks v' = tasks v" and f: "faults v' = []"
      unfolding that(3) using processCompleted_none_completed [OF a] by simp_all
    have c: "cronJob v = generateUpcomingRecurringTasks v'"
      by (simp add: cronJob_def Let_def that(3))
    show ?thesis
      unfolding c using generateUpcoming_no_faults [OF f] t f by simp
  qed
  define w1 where "w1 = processCompletedRecurringTasks (w\<lparr>console := console w @ [?info]\<rparr>)"
  define roots where "roots = filter ?q (tasks w)"
  have r1: "tasks (cronJob w) = tasks (snd (upcomingLoop w1 0 roots))"
    "faults (cronJob w) = faults (snd (upcomingLoop w1 0 roots))"
    "tasks w1 = tasks w" "faults w1 = []"
    using run [OF nf nc w1_def] by (simp_all add: roots_def)
  note l1 = upcomingLoop_rerun [OF r1(4), of 0 roots]
  have nf1: "faults (cronJob w) = []"
    using l1 r1(2) by simp
  obtain new where new: "tasks (cronJob w) = tasks w @ new"
    "\<forall>t \<in> set new. \<exists>p \<in> set (tasks w). isRecurring p \<and> generatedFrom p t"
    using cronJob_generated [of w] by blast
  have nr: "\<forall>t \<in> set new. \<not> isRecurring t"
    using new(2) generatedFrom_not_recurring by blast
  have nc1: "filter (\<lambda>t. isRecurring t \<and> status t = Completed) (tasks (cronJob w)) = []"
    unfolding new(1) filter_recurring_new [OF nr] using nc .
  have roots1: "filter ?q (tasks (cronJob w)) = roots"
    unfolding new(1) filter_recurring_new [OF nr] roots_def ..
  define w2 where
    "w2 = processCompletedRecurringTasks (cronJob w\<lparr>console := console (cronJob w) @ [?info]\<rparr>)"
  have r2: "tasks (cronJob (cronJob w)) = tasks (snd (upcomingLoop w2 0 roots))"
    "tasks w2 = tasks (cronJob w)" "faults w2 = []"
    using run [OF nf1 nc1 w2_def] by (simp_all add: roots1)
  have "tasks w2 = tasks (snd (upcomingLoop w1 0 roots)) @ []"
    using r2(2) r1(1) by simp
  then have "tasks (snd (upcomingLoop w2 0 roots)) = tasks w2"
    using l1 r2(3) by blast
  then show ?thesis using r2(1,2) by simp
qed

text \<open>
  Claim C1, at an input where the code departs from it.  The world \<open>completedRootWorld\<close> holds
  one recurring root, completed.  The first run of the job adds one instance, due on
  2024-01-04; the second run, with no change in between, adds a second instance of the same
  root for the same day: the completed-parent pass calls \<open>createRecurringTaskInstance\<close>
  without the existence check of the upcoming-root pass.  Without a completed recurring task
  and without storage failures the second run adds nothing (lemma
  \<open>cronJob_twice_without_completed\<close>).
\<close>

theorem C1_second_run_duplicates_instance:
  "map (\<lambda>t. (parentTaskId t, dueDate t)) (tasks (cronJob completedRootWorld))
     = [(None, 1704067200000), (Some 0, 1704326400000)]
   \<and> map (\<lambda>t. (parentTaskId t, dueDate t)) (tasks (cronJob (cronJob completedRootWorld)))
     = [(None, 1704067200000), (Some 0, 1704326400000), (Some 0, 1704326400000)]"
  by code_simp

text \<open>
  Claim C2, as stated, fails in its second half: after the instance of 2024-01-04 is
  completed, the next run adds no task, so none due on 2024-01-08 (time value
  1704672000000).
\<close>

theorem C2_no_instance_after_completion_counterexample:
  "(getFullYear 1704672000000, getMonth 1704672000000, getDate 1704672000000) = (2024, 0, 8)
   \<and> 1704672000000 \<notin> set (map dueDate (tasks (cronJob (markCompleted 1 (cronJob exampleWorld)))))
   \<and> length (tasks (cronJob (markCompleted 1 (cronJob exampleWorld))))
       = length (tasks (cronJob exampleWorld))"
  by code_simp

text \<open>
  Claim C2, amended.  The root is due on Monday 2024-01-01.  The first run adds exactly one
  task, the instance due on Thursday 2024-01-04 (time value 1704326400000).  After that
  instance is completed, the next run leaves the collection as it is: generation reads the
  root only, whose due date has not moved, and the instance of 2024-01-04 exists.
\<close>

theorem C2_weekly_scenario:
  "getDay (dueDate exampleRoot) = 1
   \<and> (getFullYear 1704326400000, getMonth 1704326400000, getDate 1704326400000) = (2024, 0, 4)
   \<and> getDay 1704326400000 = 4
   \<and> tasks (cronJob exampleWorld) = [exampleRoot, newTaskInstance 1 exampleRoot 1704326400000]
   \<and> tasks (cronJob (markCompleted 1 (cronJob exampleWorld)))
       = [exampleRoot, (newTaskInstance 1 exampleRoot 1704326400000)\<lparr>status := Completed\<rparr>]"
  by code_simp

end
